theory Spec2Isabelle
  imports Main
begin

section \<open>The QQ channel of nanobot (nanobot/channels/qq.py)\<close>

text \<open>
  The channel bridges a chat platform and the message bus. This theory embeds the class
  \<open>QQChannel\<close>: its constructor, \<open>start\<close>, the reconnect loop \<open>_run_bot\<close>,
  \<open>_download_media\<close> and the inbound handler \<open>_on_message\<close>. Mutation of \<open>self\<close> and the
  effects on the outside world (log, HTTP requests, temporary files, bus, connection
  attempts) are threaded through one record; what the outside world answers is read
  from a record of oracles.
\<close>

subsection \<open>Python values and strings\<close>

text \<open>
  A Python \<open>str\<close> is a sequence of code points. The model keeps the code points below
  256 (the Latin-1 block), one \<open>char\<close> each, so \<open>length\<close> counts what \<open>len\<close> counts.
  The attributes the handler reads hold \<open>None\<close> or a string.
\<close>

datatype py_value = PyNone | PyStr string

text \<open>Truthiness: \<open>None\<close> and the empty string are false.\<close>

fun truthy :: "py_value \<Rightarrow> bool" where
  "truthy PyNone = False"
| "truthy (PyStr s) = (s \<noteq> [])"

text \<open>\<open>str(v)\<close>.\<close>

fun py_str :: "py_value \<Rightarrow> string" where
  "py_str PyNone = ''None''"
| "py_str (PyStr s) = s"

text \<open>\<open>getattr(obj, name, default)\<close> on an attribute that is absent (\<open>None\<close>) or holds a value.\<close>

fun getattr :: "py_value option \<Rightarrow> py_value \<Rightarrow> py_value" where
  "getattr None dflt = dflt"
| "getattr (Some v) dflt = v"

text \<open>\<open>a or b\<close> on values.\<close>

definition py_or :: "py_value \<Rightarrow> py_value \<Rightarrow> py_value" where
  "py_or a b = (if truthy a then a else b)"

datatype py_exception =
    ValueError string
  | OSError string
  | ClientError string
  | AttributeError string
  | RuntimeError string

text \<open>\<open>str(e)\<close>, as the f-strings of the log calls format an exception.\<close>

fun exc_str :: "py_exception \<Rightarrow> string" where
  "exc_str (ValueError m) = m"
| "exc_str (OSError m) = m"
| "exc_str (ClientError m) = m"
| "exc_str (AttributeError m) = m"
| "exc_str (RuntimeError m) = m"

text \<open>
  \<open>str.isspace\<close> on one code point below 256: the ASCII white space, the four
  separators U+001C..U+001F, NEL and the no-break space.
\<close>

definition isspace :: "char \<Rightarrow> bool" where
  "isspace c = (c \<in> set [CHR 0x09, CHR 0x0A, CHR 0x0B, CHR 0x0C, CHR 0x0D,
       CHR 0x1C, CHR 0x1D, CHR 0x1E, CHR 0x1F, CHR '' '', CHR 0x85, CHR 0xA0])"

text \<open>\<open>s.strip()\<close>: white space removed at both ends.\<close>

definition strip :: "string \<Rightarrow> string" where
  "strip s = rev (dropWhile isspace (rev (dropWhile isspace s)))"

text \<open>\<open>s.startswith(p)\<close>.\<close>

fun startswith :: "string \<Rightarrow> string \<Rightarrow> bool" where
  "startswith s [] = True"
| "startswith [] (p # ps) = False"
| "startswith (c # cs) (p # ps) = (c = p \<and> startswith cs ps)"

text \<open>
  \<open>s.split(sep, maxsplit)\<close> for a one-character separator: \<open>partition_sep\<close> cuts at the
  first separator, \<open>split_max\<close> cuts at most \<open>maxsplit\<close> times from the left.
\<close>

fun partition_sep :: "char \<Rightarrow> string \<Rightarrow> (string \<times> string) option" where
  "partition_sep sep [] = None"
| "partition_sep sep (c # cs) =
     (if c = sep then Some ([], cs)
      else (case partition_sep sep cs of
              None \<Rightarrow> None
            | Some (a, b) \<Rightarrow> Some (c # a, b)))"

fun split_max :: "char \<Rightarrow> nat \<Rightarrow> string \<Rightarrow> string list" where
  "split_max sep 0 s = [s]"
| "split_max sep (Suc n) s =
     (case partition_sep sep s of
        None \<Rightarrow> [s]
      | Some (a, b) \<Rightarrow> a # split_max sep n b)"

text \<open>
  \<open>s.lower()\<close>: below 256 the upper-case letters are A..Z and U+00C0..U+00DE without the
  multiplication sign U+00D7; each maps to the code point 32 above it.
\<close>

definition lower_char :: "char \<Rightarrow> char" where
  "lower_char c =
     (let n = (of_char c :: nat) in
      if (65 \<le> n \<and> n \<le> 90) \<or> (192 \<le> n \<and> n \<le> 222 \<and> n \<noteq> 215)
      then char_of (n + 32) else c)"

definition lower :: "string \<Rightarrow> string" where
  "lower s = map lower_char s"

text \<open>
  \<open>s.isdigit()\<close>: non-empty, and every code point a digit. Below 256 these are 0..9 and
  the superscripts two, three and one (U+00B2, U+00B3, U+00B9).
\<close>

definition ascii_digit :: "char \<Rightarrow> bool" where
  "ascii_digit c = (c \<in> set ''0123456789'')"

definition isdigit_char :: "char \<Rightarrow> bool" where
  "isdigit_char c = (ascii_digit c \<or> c \<in> set [CHR 0xB2, CHR 0xB3, CHR 0xB9])"

definition isdigit :: "string \<Rightarrow> bool" where
  "isdigit s = (s \<noteq> [] \<and> list_all isdigit_char s)"

text \<open>
  \<open>int(s)\<close> on the strings the handler passes to it, those with \<open>s.isdigit()\<close>. The
  conversion reads decimal digits; a superscript digit is not one, and \<open>int\<close> raises
  \<open>ValueError\<close>. The interpreter also refuses a literal of more than \<open>lim\<close> digits
  (\<open>sys.get_int_max_str_digits()\<close>: 4300 unless configured, 0 for no limit). The
  messages of the exceptions are shortened.
\<close>

definition digit_val :: "char \<Rightarrow> int" where
  "digit_val c = int (of_char c) - 48"

definition decimal :: "string \<Rightarrow> int" where
  "decimal s = foldl (\<lambda>a c. 10 * a + digit_val c) 0 s"

definition py_int :: "nat \<Rightarrow> string \<Rightarrow> py_exception + int" where
  "py_int lim s =
     (if s \<noteq> [] \<and> list_all ascii_digit s then
        (if 0 < lim \<and> lim < length s
         then Inl (ValueError ''Exceeds the limit for integer string conversion'')
         else Inr (decimal s))
      else Inl (ValueError (''invalid literal for int() with base 10: '' @ [CHR 0x27] @ s @ [CHR 0x27])))"

subsection \<open>Metadata dictionary\<close>

text \<open>
  The metadata \<open>dict\<close> keeps insertion order; \<open>dict_set\<close> is \<open>d[k] = v\<close>: an existing key
  keeps its place, a new key goes last.
\<close>

datatype meta_value = MStr string | MBool bool | MInt int

type_synonym metadata = "(string \<times> meta_value) list"

fun dict_set :: "string \<Rightarrow> meta_value \<Rightarrow> metadata \<Rightarrow> metadata" where
  "dict_set k v [] = [(k, v)]"
| "dict_set k v ((k', v') # d) =
     (if k' = k then (k, v) # d else (k', v') # dict_set k v d)"

subsection \<open>Command parsing (lines 146 to 166 of \<open>_on_message\<close>)\<close>

text \<open>
  The block starts from \<open>content = raw_content\<close> and the metadata holding the message id,
  and leaves both possibly rewritten; \<open>int\<close> may raise inside it.
\<close>

definition parse_command :: "nat \<Rightarrow> string \<Rightarrow> metadata \<Rightarrow> py_exception + (string \<times> metadata)" where
  "parse_command lim content metadata =
     (if startswith content ''/'' then
        (let parts = split_max (CHR '' '') 2 content;
             cmd = lower (parts ! 0)
         in if cmd = ''/reset'' then
              Inr (''Reset conversation context.'', dict_set ''reset_session'' (MBool True) metadata)
            else if cmd = ''/context'' then
              (if 2 \<le> length parts \<and> isdigit (parts ! 1) then
                 (case py_int lim (parts ! 1) of
                    Inl e \<Rightarrow> Inl e
                  | Inr n \<Rightarrow>
                      Inr (if 2 < length parts then parts ! 2
                           else ''Set context window to '' @ parts ! 1,
                           dict_set ''memory_window'' (MInt n) metadata))
               else Inr (content, metadata))
            else Inr (content, metadata))
      else Inr (content, metadata))"

subsection \<open>Events, canonical messages and the outside world\<close>

text \<open>
  An inbound event carries \<open>id\<close>, \<open>author\<close>, \<open>content\<close> and \<open>attachments\<close>. An attribute
  read through \<open>getattr\<close> or \<open>hasattr\<close> may be absent (\<open>None\<close> at the \<open>option\<close> level).
\<close>

record qq_author =
  author_id :: "py_value option"
  author_user_openid :: "py_value option"

record qq_attachment =
  att_url :: "py_value option"

record qq_message =
  msg_id :: string
  msg_author :: qq_author
  msg_content :: py_value
  msg_attachments :: "qq_attachment list option"

text \<open>The keyword arguments of the call \<open>self._handle_message(...)\<close>.\<close>

record inbound_message =
  in_sender_id :: string
  in_chat_id :: string
  in_content :: string
  in_metadata :: metadata
  in_media :: "string list"

datatype log_entry = LogError string | LogWarning string | LogInfo string

text \<open>
  What one HTTP request yields: \<open>session.get\<close> raises, or a response arrives with its
  status, its \<open>Content-Type\<close> header if any, and the outcome of \<open>response.read()\<close>.
\<close>

datatype http_result =
    TransportError py_exception
  | Response nat "string option" "py_exception + string"

text \<open>
  The oracles: whether the SDK import succeeded, the interpreter's digit limit, the
  table behind \<open>mimetypes.guess_extension\<close>, the network and the temporary directory
  (both by the number of the request, so that a URL may answer differently each time
  and every file gets its own name), and the bus.
\<close>

record env =
  qq_available :: bool
  max_str_digits :: nat
  guess_extension :: "string \<Rightarrow> string option"
  http_get :: "nat \<Rightarrow> string \<Rightarrow> http_result"
  mkstemp :: "nat \<Rightarrow> py_exception + string"
  publish_raises :: "inbound_message \<Rightarrow> py_exception option"

text \<open>
  The fields of \<open>self\<close> (\<open>config.app_id\<close>, \<open>config.secret\<close>, \<open>_running\<close>, \<open>_client\<close>,
  \<open>_processed_ids\<close>, \<open>_bot_task\<close>), then the effects: the allocator of object
  identities, the client instances on which \<open>start\<close> was invoked, the URLs requested,
  the temporary files written, the messages on the bus, and the log.
\<close>

record channel =
  app_id :: py_value
  secret :: py_value
  running :: bool
  client :: "nat option"
  processed_ids :: "string list"
  bot_task :: "nat option"
  next_obj :: nat
  connects :: "nat list"
  requests :: "string list"
  files :: "(string \<times> string) list"
  bus :: "inbound_message list"
  log :: "log_entry list"

definition logger :: "log_entry \<Rightarrow> channel \<Rightarrow> channel" where
  "logger entry s = s\<lparr>log := log s @ [entry]\<rparr>"

subsection \<open>The dedup ledger: \<open>deque(maxlen=1000)\<close>\<close>

definition processed_ids_maxlen :: nat where
  "processed_ids_maxlen = 1000"

text \<open>
  \<open>deque.append\<close> on a bounded deque: the item goes to the right end, and when the
  length then exceeds \<open>maxlen\<close> the leftmost item is dropped.
\<close>

definition deque_append :: "nat \<Rightarrow> 'a list \<Rightarrow> 'a \<Rightarrow> 'a list" where
  "deque_append maxlen d x =
     (let d' = d @ [x] in if maxlen < length d' then tl d' else d')"

text \<open>\<open>__init__\<close>: the state of a channel just constructed from its configuration.\<close>

definition init :: "py_value \<Rightarrow> py_value \<Rightarrow> channel" where
  "init cfg_app_id cfg_secret =
     \<lparr>app_id = cfg_app_id, secret = cfg_secret, running = False, client = None,
      processed_ids = [], bot_task = None, next_obj = 0, connects = [],
      requests = [], files = [], bus = [], log = []\<rparr>"

subsection \<open>\<open>_download_media\<close>\<close>

text \<open>
  The \<open>try\<close> block for the request numbered \<open>n\<close>: \<open>Inl e\<close> when it raises, \<open>Inr None\<close> when
  the status is not 200 and control falls through, \<open>Inr (Some (name, bytes))\<close> when the
  bytes were written to the temporary file \<open>name\<close>, whose suffix is the guessed
  extension or \<open>.jpg\<close>.
\<close>

definition download_try :: "env \<Rightarrow> nat \<Rightarrow> string \<Rightarrow> py_exception + (string \<times> string) option" where
  "download_try ev n url =
     (case http_get ev n url of
        TransportError e \<Rightarrow> Inl e
      | Response status header body \<Rightarrow>
          if status = 200 then
            (case body of
               Inl e \<Rightarrow> Inl e
             | Inr bytes \<Rightarrow>
                 (let content_type = (case header of None \<Rightarrow> [] | Some t \<Rightarrow> t);
                      ext = (case guess_extension ev content_type of
                               None \<Rightarrow> ''.jpg''
                             | Some x \<Rightarrow> if x = [] then ''.jpg'' else x)
                  in case mkstemp ev n of
                       Inl e \<Rightarrow> Inl e
                     | Inr base \<Rightarrow> Inr (Some (base @ ext, bytes))))
          else Inr None)"

text \<open>The whole method: an exception is logged and \<open>None\<close> returned.\<close>

definition download_media :: "env \<Rightarrow> string \<Rightarrow> channel \<Rightarrow> string option \<times> channel" where
  "download_media ev url s =
     (let n = length (requests s);
          s1 = s\<lparr>requests := requests s @ [url]\<rparr>
      in case download_try ev n url of
           Inl e \<Rightarrow> (None, logger (LogError (''Failed to download media: '' @ exc_str e)) s1)
         | Inr None \<Rightarrow> (None, s1)
         | Inr (Some (name, bytes)) \<Rightarrow> (Some name, s1\<lparr>files := files s1 @ [(name, bytes)]\<rparr>))"

subsection \<open>\<open>_on_message\<close>\<close>

text \<open>Line 142: the sender id.\<close>

definition resolve_user_id :: "qq_author \<Rightarrow> string" where
  "resolve_user_id a =
     py_str (py_or (getattr (author_id a) PyNone)
                   (getattr (author_user_openid a) (PyStr ''unknown'')))"

text \<open>
  Lines 170 to 175: the loop over the attachments, \<open>media\<close> being the list built so far.
  An attachment without a truthy \<open>url\<close> is passed over without a request; a path is
  appended when the download returned a truthy one.
\<close>

fun fetch_media :: "env \<Rightarrow> qq_attachment list \<Rightarrow> string list \<Rightarrow> channel \<Rightarrow> string list \<times> channel" where
  "fetch_media ev [] media s = (media, s)"
| "fetch_media ev (att # atts) media s =
     (case att_url att of
        None \<Rightarrow> fetch_media ev atts media s
      | Some u \<Rightarrow>
          if truthy u then
            (case download_media ev (py_str u) s of
               (None, s') \<Rightarrow> fetch_media ev atts media s'
             | (Some path, s') \<Rightarrow>
                 if path \<noteq> [] then fetch_media ev atts (media @ [path]) s'
                 else fetch_media ev atts media s')
          else fetch_media ev atts media s)"

text \<open>
  Modelled from the spec: \<open>BaseChannel._handle_message\<close>, inherited from
  nanobot/channels/base.py, which is not among the sources. The spec has the normalizer
  "publish to the bus" the canonical message it built; the call may raise, and then
  nothing is put on the bus.
\<close>

definition handle_message :: "env \<Rightarrow> inbound_message \<Rightarrow> channel \<Rightarrow> py_exception option \<times> channel" where
  "handle_message ev m s =
     (case publish_raises ev m of
        Some e \<Rightarrow> (Some e, s)
      | None \<Rightarrow> (None, s\<lparr>bus := bus s @ [m]\<rparr>))"

text \<open>
  The \<open>try\<close> block of the handler, lines 136 to 186. The first component is the exception
  it raises, if any; the second is the state reached, with every mutation made before
  the raise.
\<close>

definition on_message_try :: "env \<Rightarrow> qq_message \<Rightarrow> channel \<Rightarrow> py_exception option \<times> channel" where
  "on_message_try ev data s =
     (if msg_id data \<in> set (processed_ids s) then (None, s)
      else
        (let s1 = s\<lparr>processed_ids := deque_append processed_ids_maxlen (processed_ids s) (msg_id data)\<rparr>;
             user_id = resolve_user_id (msg_author data);
             raw_content = strip (py_str (py_or (msg_content data) (PyStr [])))
         in case parse_command (max_str_digits ev) raw_content [(''message_id'', MStr (msg_id data))] of
              Inl e \<Rightarrow> (Some e, s1)
            | Inr (text, meta) \<Rightarrow>
                (case fetch_media ev (case msg_attachments data of None \<Rightarrow> [] | Some atts \<Rightarrow> atts) [] s1 of
                   (media, s2) \<Rightarrow>
                     if text = [] \<and> media = [] then (None, s2)
                     else handle_message ev
                            \<lparr>in_sender_id = user_id, in_chat_id = user_id,
                             in_content = (if text = [] then ''[Image Message]'' else text),
                             in_metadata = meta, in_media = media\<rparr> s2)))"

text \<open>
  The handler: \<open>except Exception\<close> logs what the block raised. The first component is
  the exception that leaves the handler.
\<close>

definition on_message :: "env \<Rightarrow> qq_message \<Rightarrow> channel \<Rightarrow> py_exception option \<times> channel" where
  "on_message ev data s =
     (case on_message_try ev data s of
        (None, s') \<Rightarrow> (None, s')
      | (Some e, s') \<Rightarrow> (None, logger (LogError (''Error handling QQ message: '' @ exc_str e)) s'))"

text \<open>A sequence of deliveries, each with the answers the outside world gives during it.\<close>

fun deliver :: "(env \<times> qq_message) list \<Rightarrow> channel \<Rightarrow> channel" where
  "deliver [] s = s"
| "deliver ((ev, data) # rest) s = deliver rest (snd (on_message ev data s))"

subsection \<open>\<open>start\<close> and \<open>_run_bot\<close>\<close>

text \<open>
  \<open>start\<close>: the two guards, then the only place where a client is instantiated
  (\<open>BotClass()\<close>) and where the background task is created. Both objects take their
  identity from the allocator.
\<close>

definition start :: "env \<Rightarrow> channel \<Rightarrow> channel" where
  "start ev s =
     (if \<not> qq_available ev then
        logger (LogError ''QQ SDK not installed. Run: pip install qq-botpy'') s
      else if \<not> truthy (app_id s) \<or> \<not> truthy (secret s) then
        logger (LogError ''QQ app_id and secret not configured'') s
      else
        logger (LogInfo ''QQ bot started (C2C private message)'')
          (s\<lparr>running := True,
             client := Some (next_obj s),
             bot_task := Some (Suc (next_obj s)),
             next_obj := Suc (Suc (next_obj s))\<rparr>))"

text \<open>
  What an \<open>await\<close> in the loop comes back with: it returns, it raises an exception, or
  the task is cancelled at it, and then the coroutine ends there.
\<close>

datatype await_result = Returned | Raised py_exception | Cancelled

text \<open>
  The \<open>try\<close> block of the loop, \<open>await self._client.start(...)\<close>: the attempt is recorded
  with the identity of the client it is made on, and comes back as the outside world
  says; without a client the attribute access raises.
\<close>

definition client_start :: "await_result \<Rightarrow> channel \<Rightarrow> await_result \<times> channel" where
  "client_start connected s =
     (case client s of
        None \<Rightarrow> (Raised (AttributeError ''NoneType object has no attribute start''), s)
      | Some c \<Rightarrow> (connected, s\<lparr>connects := connects s @ [c]\<rparr>))"

text \<open>
  \<open>_run_bot\<close>, one equation per pass of the \<open>while\<close> loop. Each pass reads from the script
  how the connection and then \<open>asyncio.sleep(5)\<close> come back; an exhausted script leaves
  the loop suspended. Cancellation is not an \<open>Exception\<close>: it ends the coroutine.
\<close>

fun run_bot :: "(await_result \<times> await_result) list \<Rightarrow> channel \<Rightarrow> channel" where
  "run_bot [] s = s"
| "run_bot ((connected, slept) # script) s =
     (if running s then
        (case client_start connected s of
           (Cancelled, s0) \<Rightarrow> s0
         | (result, s0) \<Rightarrow>
             (let s1 = (case result of
                          Raised e \<Rightarrow> logger (LogWarning (''QQ bot error: '' @ exc_str e)) s0
                        | _ \<Rightarrow> s0)
              in if running s1 then
                   (let s2 = logger (LogInfo ''Reconnecting QQ bot in 5 seconds...'') s1
                    in case slept of Returned \<Rightarrow> run_bot script s2 | _ \<Rightarrow> s2)
                 else run_bot script s1))
      else s)"

subsection \<open>Notions used to state the properties\<close>

text \<open>
  \<open>same_self s s'\<close>: the step from \<open>s\<close> to \<open>s'\<close> touched neither a field of \<open>self\<close> nor the
  allocator, the connection attempts or the bus; only requests, files and log may differ.
\<close>

definition same_self :: "channel \<Rightarrow> channel \<Rightarrow> bool" where
  "same_self s s' =
     (app_id s' = app_id s \<and> secret s' = secret s \<and> running s' = running s \<and>
      client s' = client s \<and> processed_ids s' = processed_ids s \<and>
      bot_task s' = bot_task s \<and> next_obj s' = next_obj s \<and>
      connects s' = connects s \<and> bus s' = bus s)"

text \<open>The path the request numbered \<open>n\<close> for \<open>url\<close> yields, \<open>None\<close> when the download fails.\<close>

definition download_path :: "env \<Rightarrow> nat \<Rightarrow> string \<Rightarrow> string option" where
  "download_path ev n url =
     (case download_try ev n url of
        Inr (Some (name, bytes)) \<Rightarrow> Some name
      | _ \<Rightarrow> None)"

text \<open>The URLs of the attachments that have a truthy \<open>url\<close>, in attachment order.\<close>

fun usable_urls :: "qq_attachment list \<Rightarrow> string list" where
  "usable_urls [] = []"
| "usable_urls (att # atts) =
     (case att_url att of
        None \<Rightarrow> usable_urls atts
      | Some u \<Rightarrow> if truthy u then py_str u # usable_urls atts else usable_urls atts)"

text \<open>
  The attachments and the trimmed content of an event as the handler reads them, the
  paths that the downloads for a list of attachments yield when the first request is
  numbered \<open>n\<close> (the failed ones left out, the order kept), and the message the handler
  hands to \<open>_handle_message\<close> for a given content, metadata and media list.
\<close>

definition fetched_media :: "env \<Rightarrow> nat \<Rightarrow> qq_attachment list \<Rightarrow> string list" where
  "fetched_media ev n atts =
     List.map_filter (\<lambda>(i, u). download_path ev i u) (enumerate n (usable_urls atts))"

definition event_attachments :: "qq_message \<Rightarrow> qq_attachment list" where
  "event_attachments data = (case msg_attachments data of None \<Rightarrow> [] | Some atts \<Rightarrow> atts)"

definition raw_content :: "qq_message \<Rightarrow> string" where
  "raw_content data = strip (py_str (py_or (msg_content data) (PyStr [])))"

definition canonical :: "qq_message \<Rightarrow> string \<Rightarrow> metadata \<Rightarrow> string list \<Rightarrow> inbound_message" where
  "canonical data text meta media =
     \<lparr>in_sender_id = resolve_user_id (msg_author data),
      in_chat_id = resolve_user_id (msg_author data),
      in_content = (if text = [] then ''[Image Message]'' else text),
      in_metadata = meta, in_media = media\<rparr>"

text \<open>The parts the command block splits the content into.\<close>

definition command_parts :: "string \<Rightarrow> string list" where
  "command_parts content = split_max (CHR '' '') 2 content"

text \<open>\<open>" ".join(parts)\<close>.\<close>

fun join_sp :: "string list \<Rightarrow> string" where
  "join_sp [] = []"
| "join_sp [p] = p"
| "join_sp (p # q # ps) = p @ CHR '' '' # join_sp (q # ps)"

subsection \<open>Concrete inputs\<close>

text \<open>
  An outside world in which everything works: one URL serves a PNG, every other URL
  answers 404, temporary files are numbered, and the bus accepts every message.
\<close>

definition env_ok :: env where
  "env_ok =
     \<lparr>qq_available = True, max_str_digits = 4300,
      guess_extension = (\<lambda>t. if t = ''image/png'' then Some ''.png'' else None),
      http_get = (\<lambda>n u. if u = ''https://cdn/a.png''
                         then Response 200 (Some ''image/png'') (Inr ''PNG'')
                         else Response 404 None (Inr [])),
      mkstemp = (\<lambda>n. Inr (''/tmp/tmp'' @ replicate (Suc n) (CHR ''x''))),
      publish_raises = (\<lambda>m. None)\<rparr>"

text \<open>The same world with a bus that refuses every message.\<close>

definition env_bus_down :: env where
  "env_bus_down = env_ok\<lparr>publish_raises := (\<lambda>m. Some (RuntimeError ''bus closed''))\<rparr>"

definition chan0 :: channel where
  "chan0 = init (PyStr ''102030'') (PyStr ''s3cr3t'')"

definition openid_author :: qq_author where
  "openid_author = \<lparr>author_id = None, author_user_openid = Some (PyStr ''E4F1A9'')\<rparr>"

definition msg_text :: "string \<Rightarrow> string \<Rightarrow> qq_message" where
  "msg_text i t =
     \<lparr>msg_id = i, msg_author = openid_author, msg_content = PyStr t, msg_attachments = None\<rparr>"

definition msg_empty :: qq_message where
  "msg_empty =
     \<lparr>msg_id = ''m-empty'', msg_author = openid_author, msg_content = PyNone,
      msg_attachments = Some []\<rparr>"

definition msg_two_images :: qq_message where
  "msg_two_images =
     \<lparr>msg_id = ''m-img'', msg_author = openid_author, msg_content = PyStr [],
      msg_attachments = Some [\<lparr>att_url = Some (PyStr ''https://cdn/gone.png'')\<rparr>,
                              \<lparr>att_url = Some (PyStr ''https://cdn/a.png'')\<rparr>]\<rparr>"

text \<open>A burst of \<open>n\<close> text messages with pairwise different ids.\<close>

definition numbered_id :: "nat \<Rightarrow> string" where
  "numbered_id n = replicate (Suc n) (CHR ''i'')"

definition burst :: "nat \<Rightarrow> (env \<times> qq_message) list" where
  "burst n = map (\<lambda>k. (env_ok, msg_text (numbered_id k) ''hi'')) [0..<n]"

text \<open>
  A command whose argument is the superscript two, and an author whose open id is the
  word the handler uses as its sentinel.
\<close>

definition msg_superscript :: qq_message where
  "msg_superscript = msg_text ''m-sup'' (''/context '' @ [CHR 0xB2])"

definition unknown_openid_author :: qq_author where
  "unknown_openid_author = \<lparr>author_id = None, author_user_openid = Some (PyStr ''unknown'')\<rparr>"

text \<open>The metadata a handler starts from, and a connection that fails once.\<close>

definition md0 :: metadata where
  "md0 = [(''message_id'', MStr ''m1'')]"

definition flaky_script :: "(await_result \<times> await_result) list" where
  "flaky_script = [(Raised (ClientError ''connection reset''), Returned), (Returned, Returned)]"

section \<open>Properties\<close>

subsection \<open>What each step leaves untouched\<close>

lemma logger_simps [simp]:
  "processed_ids (logger e s) = processed_ids s" "bus (logger e s) = bus s"
  "requests (logger e s) = requests s" "files (logger e s) = files s"
  "running (logger e s) = running s" "client (logger e s) = client s"
  "connects (logger e s) = connects s" "next_obj (logger e s) = next_obj s"
  "bot_task (logger e s) = bot_task s" "log (logger e s) = log s @ [e]"
  "app_id (logger e s) = app_id s" "secret (logger e s) = secret s"
  by (simp_all add: logger_def)

lemma same_self_refl [simp]: "same_self s s"
  by (simp add: same_self_def)

lemma same_self_trans: "same_self s s' \<Longrightarrow> same_self s' s'' \<Longrightarrow> same_self s s''"
  by (simp add: same_self_def)

lemma download_media_same_self: "same_self s (snd (download_media ev url s))"
  by (simp add: download_media_def same_self_def Let_def split: sum.splits option.splits prod.splits)

lemma fetch_media_same_self: "same_self s (snd (fetch_media ev atts media s))"
proof (induction atts arbitrary: media s)
  case Nil
  show ?case by simp
next
  case (Cons att atts)
  show ?case
  proof (cases "att_url att")
    case None
    then show ?thesis using Cons.IH by simp
  next
    case (Some u)
    show ?thesis
    proof (cases "truthy u")
      case False
      then show ?thesis using Some Cons.IH by simp
    next
      case True
      obtain r s' where d: "download_media ev (py_str u) s = (r, s')"
        by (cases "download_media ev (py_str u) s")
      have "same_self s s'"
        using download_media_same_self[of s ev "py_str u"] d by simp
      moreover have "\<And>m. same_self s' (snd (fetch_media ev atts m s'))"
        using Cons.IH .
      ultimately have "\<And>m. same_self s (snd (fetch_media ev atts m s'))"
        by (blast intro: same_self_trans)
      then show ?thesis using Some True d by (simp split: option.splits)
    qed
  qed
qed

lemma handle_message_bus:
  "bus (snd (handle_message ev m s)) = (if publish_raises ev m = None then bus s @ [m] else bus s)"
  by (simp add: handle_message_def split: option.splits)

lemma handle_message_processed_ids:
  "processed_ids (snd (handle_message ev m s)) = processed_ids s"
  by (simp add: handle_message_def split: option.splits)

subsection \<open>The ledger\<close>

lemma deque_append_drop:
  "length d \<le> n \<Longrightarrow> deque_append n d x = drop (Suc (length d) - n) (d @ [x])"
  by (cases d) (auto simp: deque_append_def Let_def Suc_diff_le)

lemma deque_append_length: "length d \<le> n \<Longrightarrow> length (deque_append n d x) \<le> n"
  by (cases d) (simp_all add: deque_append_def Let_def)

lemma deque_append_member: "0 < n \<Longrightarrow> x \<in> set (deque_append n d x)"
  by (cases d) (simp_all add: deque_append_def Let_def)

lemma deque_append_subset: "set (deque_append n d x) \<subseteq> insert x (set d)"
  by (cases d) (auto simp: deque_append_def Let_def split: if_splits)

lemma on_message_try_dup:
  "msg_id data \<in> set (processed_ids s) \<Longrightarrow> on_message_try ev data s = (None, s)"
  by (simp add: on_message_try_def)

lemma on_message_dup:
  "msg_id data \<in> set (processed_ids s) \<Longrightarrow> on_message ev data s = (None, s)"
  by (simp add: on_message_def on_message_try_dup)

lemma on_message_try_processed_ids:
  assumes new: "msg_id data \<notin> set (processed_ids s)"
  shows "processed_ids (snd (on_message_try ev data s)) =
           deque_append processed_ids_maxlen (processed_ids s) (msg_id data)"
proof -
  let ?s1 = "s\<lparr>processed_ids := deque_append processed_ids_maxlen (processed_ids s) (msg_id data)\<rparr>"
  let ?atts = "case msg_attachments data of None \<Rightarrow> [] | Some atts \<Rightarrow> atts"
  have f: "processed_ids (snd (fetch_media ev ?atts [] ?s1)) = processed_ids ?s1"
    using fetch_media_same_self[of ?s1 ev ?atts "[]"] by (simp add: same_self_def)
  show ?thesis
    using new f
    by (auto simp: on_message_try_def Let_def handle_message_def
             split: sum.splits prod.splits option.splits)
qed

lemma on_message_snd:
  "processed_ids (snd (on_message ev data s)) = processed_ids (snd (on_message_try ev data s))"
  "bus (snd (on_message ev data s)) = bus (snd (on_message_try ev data s))"
  by (simp_all add: on_message_def split: prod.splits option.splits)

lemma on_message_processed_ids:
  "processed_ids (snd (on_message ev data s)) =
     (if msg_id data \<in> set (processed_ids s) then processed_ids s
      else deque_append processed_ids_maxlen (processed_ids s) (msg_id data))"
  by (simp add: on_message_snd on_message_try_processed_ids on_message_try_dup)

lemma on_message_marks_seen: "msg_id data \<in> set (processed_ids (snd (on_message ev data s)))"
  by (simp add: on_message_processed_ids deque_append_member processed_ids_maxlen_def)

lemma on_message_try_bus:
  "bus (snd (on_message_try ev data s)) = bus s \<or>
   (\<exists>m. bus (snd (on_message_try ev data s)) = bus s @ [m])"
proof (cases "msg_id data \<in> set (processed_ids s)")
  case True
  then show ?thesis by (simp add: on_message_try_dup)
next
  case False
  let ?s1 = "s\<lparr>processed_ids := deque_append processed_ids_maxlen (processed_ids s) (msg_id data)\<rparr>"
  let ?atts = "case msg_attachments data of None \<Rightarrow> [] | Some atts \<Rightarrow> atts"
  have f: "bus (snd (fetch_media ev ?atts [] ?s1)) = bus s"
    using fetch_media_same_self[of ?s1 ev ?atts "[]"] by (simp add: same_self_def)
  show ?thesis
    using False f
    by (auto simp: on_message_try_def Let_def handle_message_def
             split: sum.splits prod.splits option.splits)
qed

subsection \<open>C1: a redelivered message id\<close>

text \<open>
  C1, amended. A delivery whose message id is in the ledger returns at once and leaves
  the whole state as it was: nothing is logged, requested, written or published. Every
  delivery leaves its id in the ledger, so a second delivery of the same id right after
  the first, whatever the event then carries and whatever the outside world does, is
  such a no-op; and the first delivery puts at most one message on the bus. Two
  deliveries of one id therefore publish at most one message: one when the first
  delivery published, none when it was discarded as empty or aborted.
\<close>

theorem redelivery_is_discarded:
  "(msg_id data \<in> set (processed_ids t) \<longrightarrow> on_message ev data t = (None, t)) \<and>
   (msg_id data' = msg_id data \<longrightarrow>
      on_message ev' data' (snd (on_message ev data s)) = (None, snd (on_message ev data s)) \<and>
      (bus (snd (on_message ev data s)) = bus s \<or>
       (\<exists>m. bus (snd (on_message ev data s)) = bus s @ [m])))"
  using on_message_dup[of data t ev]
        on_message_dup[of data' "snd (on_message ev data s)" ev']
        on_message_marks_seen[of data ev s]
        on_message_try_bus[of ev data s]
  by (simp add: on_message_snd)

text \<open>
  C1 as stated fails: an event without content and without attachments, delivered
  twice, publishes no message at all, not exactly one.
\<close>

theorem redelivery_of_empty_event_counterexample:
  "length (bus (deliver [(env_ok, msg_empty), (env_ok, msg_empty)] chan0)) \<noteq> length (bus chan0) + 1"
  by code_simp

text \<open>
  A text message delivered twice, the second time with another text and a bus that is
  down: one message is published.
\<close>

theorem redelivery_is_discarded_witness:
  "msg_id (msg_text ''m1'' ''hello'') \<in> set (processed_ids (snd (on_message env_ok (msg_text ''m1'' ''hello'') chan0))) \<and>
   msg_id (msg_text ''m1'' ''again'') = msg_id (msg_text ''m1'' ''hello'') \<and>
   on_message env_bus_down (msg_text ''m1'' ''again'') (snd (on_message env_ok (msg_text ''m1'' ''hello'') chan0))
     = (None, snd (on_message env_ok (msg_text ''m1'' ''hello'') chan0)) \<and>
   length (bus (deliver [(env_ok, msg_text ''m1'' ''hello''), (env_bus_down, msg_text ''m1'' ''again'')] chan0)) = 1"
proof -
  have h: "msg_id (msg_text ''m1'' ''again'') = msg_id (msg_text ''m1'' ''hello'')"
    by (simp add: msg_text_def)
  have b: "length (bus (snd (on_message env_ok (msg_text ''m1'' ''hello'') chan0))) = 1"
    by code_simp
  show ?thesis
    using redelivery_is_discarded[where data = "msg_text ''m1'' ''hello''" and ev = env_ok
            and s = chan0 and t = "snd (on_message env_ok (msg_text ''m1'' ''hello'') chan0)"
            and data' = "msg_text ''m1'' ''again''" and ev' = env_bus_down]
          on_message_marks_seen[of "msg_text ''m1'' ''hello''" env_ok chan0] h b
    by simp
qed

subsection \<open>C2: the ledger is a bounded first-in first-out window\<close>

lemma deliver_ledger_bound:
  "length (processed_ids s) \<le> processed_ids_maxlen \<Longrightarrow>
   length (processed_ids (deliver es s)) \<le> processed_ids_maxlen"
proof (induction es arbitrary: s)
  case Nil
  then show ?case by simp
next
  case (Cons p es)
  obtain ev data where p: "p = (ev, data)" by (cases p)
  have "length (processed_ids (snd (on_message ev data s))) \<le> processed_ids_maxlen"
    using Cons.prems by (simp add: on_message_processed_ids deque_append_length)
  then show ?case using Cons.IH p by simp
qed

lemma deliver_ledger_fresh:
  assumes "length (processed_ids s) \<le> processed_ids_maxlen"
    and "distinct (map (\<lambda>p. msg_id (snd p)) es)"
    and "set (map (\<lambda>p. msg_id (snd p)) es) \<inter> set (processed_ids s) = {}"
  shows "processed_ids (deliver es s) =
           drop (length (processed_ids s) + length es - processed_ids_maxlen)
                (processed_ids s @ map (\<lambda>p. msg_id (snd p)) es)"
  using assms
proof (induction es arbitrary: s)
  case Nil
  then show ?case by simp
next
  case (Cons p es)
  obtain ev data where p: "p = (ev, data)" by (cases p)
  let ?l = "processed_ids s"
  let ?s1 = "snd (on_message ev data s)"
  let ?ids = "map (\<lambda>p. msg_id (snd p)) es"
  have new: "msg_id data \<notin> set ?l" using Cons.prems(3) p by simp
  have l1: "processed_ids ?s1 = drop (Suc (length ?l) - processed_ids_maxlen) (?l @ [msg_id data])"
    using new Cons.prems(1) by (simp add: on_message_processed_ids deque_append_drop)
  have len1: "length (processed_ids ?s1) \<le> processed_ids_maxlen"
    using Cons.prems(1) by (simp add: on_message_processed_ids deque_append_length)
  have sub: "set (processed_ids ?s1) \<subseteq> insert (msg_id data) (set ?l)"
    using deque_append_subset[of processed_ids_maxlen ?l "msg_id data"]
    by (auto simp: on_message_processed_ids)
  have d: "distinct ?ids" using Cons.prems(2) by simp
  have disj: "set ?ids \<inter> set (processed_ids ?s1) = {}"
  proof -
    have "msg_id data \<notin> set ?ids" using Cons.prems(2) p by simp
    moreover have "set ?ids \<inter> set ?l = {}" using Cons.prems(3) by auto
    ultimately show ?thesis using sub by blast
  qed
  have "processed_ids (deliver es ?s1) =
          drop (length (processed_ids ?s1) + length es - processed_ids_maxlen)
               (processed_ids ?s1 @ ?ids)"
    using Cons.IH[OF len1 d disj] .
  also have "\<dots> = drop (length ?l + length (p # es) - processed_ids_maxlen)
                       (?l @ map (\<lambda>p. msg_id (snd p)) (p # es))"
  proof (cases "length ?l < processed_ids_maxlen")
    case True
    then show ?thesis by (simp add: l1 p Suc_diff_le)
  next
    case False
    then have full: "length ?l = processed_ids_maxlen" using Cons.prems(1) by simp
    then have "?l \<noteq> []" by (auto simp: processed_ids_maxlen_def)
    then obtain a l' where al: "?l = a # l'" by (cases ?l) auto
    have "Suc (length l') = processed_ids_maxlen" using full al by simp
    then show ?thesis by (simp add: l1 p al)
  qed
  finally show ?case by (simp add: p)
qed

lemma drop_past_head:
  assumes "distinct (x # xs)" and "length l < k"
  shows "x \<notin> set (drop k (l @ x # xs))"
proof -
  have "set (drop k (l @ x # xs)) \<subseteq> set xs"
  proof -
    have "drop k (l @ x # xs) = drop (k - length l) (x # xs)" using assms(2) by simp
    also have "\<dots> = drop (k - length l - 1) xs" using assms(2) by (cases "k - length l") simp_all
    finally show ?thesis by (simp add: set_drop_subset)
  qed
  then show ?thesis using assms(1) by auto
qed


lemma deliver_ledger_rolls_over:
  assumes len: "length (processed_ids s) \<le> processed_ids_maxlen"
    and dist: "distinct (map (\<lambda>p. msg_id (snd p)) es)"
    and disj: "set (map (\<lambda>p. msg_id (snd p)) es) \<inter> set (processed_ids s) = {}"
    and many: "processed_ids_maxlen < length es"
  shows "msg_id (snd (hd es)) \<notin> set (processed_ids (deliver es s))"
    and "length (processed_ids (deliver es s)) = processed_ids_maxlen"
proof -
  obtain p es' where es: "es = p # es'" using many by (cases es) auto
  let ?l = "processed_ids s"
  let ?k = "length ?l + length es - processed_ids_maxlen"
  have eq: "processed_ids (deliver es s) = drop ?k (?l @ map (\<lambda>p. msg_id (snd p)) es)"
    using deliver_ledger_fresh[OF len dist disj] .
  have k: "length ?l < ?k" using many by simp
  have d: "distinct (msg_id (snd p) # map (\<lambda>p. msg_id (snd p)) es')" using dist es by simp
  have "msg_id (snd p) \<notin> set (drop ?k (?l @ msg_id (snd p) # map (\<lambda>p. msg_id (snd p)) es'))"
    using drop_past_head[OF d k] .
  moreover have "map (\<lambda>p. msg_id (snd p)) es = msg_id (snd p) # map (\<lambda>p. msg_id (snd p)) es'"
    by (simp add: es)
  moreover have "hd es = p" by (simp add: es)
  ultimately show "msg_id (snd (hd es)) \<notin> set (processed_ids (deliver es s))"
    by (simp add: eq)
  show "length (processed_ids (deliver es s)) = processed_ids_maxlen"
    using many by (simp add: eq)
qed

text \<open>
  C2. Whatever is delivered to a new channel, the ledger never holds more than 1000
  ids. A first-seen id goes to the right end, and when the ledger is full the leftmost
  id, the one inserted earliest, is dropped. A delivery of an id that is in the ledger
  leaves the ledger as it is, so seeing an id again does not renew its place: the order
  is that of insertion. After more than 1000 deliveries with pairwise different ids,
  none of them in the ledger before, the first of these ids is no longer in the ledger,
  and a later delivery of it is handled as a first sighting: the id is inserted again,
  at the expense of the then oldest id.
\<close>

theorem ledger_bounded_fifo:
  "length (processed_ids (deliver es (init a b))) \<le> 1000 \<and>
   (msg_id data \<notin> set (processed_ids s) \<longrightarrow>
      processed_ids (snd (on_message ev data s)) =
        (if 1000 \<le> length (processed_ids s) then tl (processed_ids s @ [msg_id data])
         else processed_ids s @ [msg_id data])) \<and>
   (msg_id data \<in> set (processed_ids s) \<longrightarrow>
      processed_ids (snd (on_message ev data s)) = processed_ids s) \<and>
   (length (processed_ids s) \<le> 1000 \<and> distinct (map (\<lambda>p. msg_id (snd p)) es') \<and>
    set (map (\<lambda>p. msg_id (snd p)) es') \<inter> set (processed_ids s) = {} \<and> 1000 < length es' \<longrightarrow>
      msg_id (snd (hd es')) \<notin> set (processed_ids (deliver es' s)) \<and>
      processed_ids (snd (on_message ev' (snd (hd es')) (deliver es' s))) =
        tl (processed_ids (deliver es' s)) @ [msg_id (snd (hd es'))])"
proof (intro conjI impI)
  show "length (processed_ids (deliver es (init a b))) \<le> 1000"
    using deliver_ledger_bound[of "init a b" es] by (simp add: init_def processed_ids_maxlen_def)
next
  assume "msg_id data \<notin> set (processed_ids s)"
  then show "processed_ids (snd (on_message ev data s)) =
        (if 1000 \<le> length (processed_ids s) then tl (processed_ids s @ [msg_id data])
         else processed_ids s @ [msg_id data])"
    by (simp add: on_message_processed_ids deque_append_def processed_ids_maxlen_def Let_def)
next
  assume "msg_id data \<in> set (processed_ids s)"
  then show "processed_ids (snd (on_message ev data s)) = processed_ids s"
    by (simp add: on_message_processed_ids)
next
  assume h: "length (processed_ids s) \<le> 1000 \<and> distinct (map (\<lambda>p. msg_id (snd p)) es') \<and>
    set (map (\<lambda>p. msg_id (snd p)) es') \<inter> set (processed_ids s) = {} \<and> 1000 < length es'"
  then have out: "msg_id (snd (hd es')) \<notin> set (processed_ids (deliver es' s))"
    and full: "length (processed_ids (deliver es' s)) = processed_ids_maxlen"
    using deliver_ledger_rolls_over[of s es'] by (simp_all add: processed_ids_maxlen_def)
  show "msg_id (snd (hd es')) \<notin> set (processed_ids (deliver es' s))" using out .
  have "processed_ids (deliver es' s) \<noteq> []" using full by (auto simp: processed_ids_maxlen_def)
  then show "processed_ids (snd (on_message ev' (snd (hd es')) (deliver es' s))) =
        tl (processed_ids (deliver es' s)) @ [msg_id (snd (hd es'))]"
    using out full by (simp add: on_message_processed_ids deque_append_def Let_def)
qed

lemma numbered_id_inj: "inj numbered_id"
proof (rule injI)
  fix m n assume "numbered_id m = numbered_id n"
  then have "length (numbered_id m) = length (numbered_id n)" by simp
  then show "m = n" by (simp add: numbered_id_def)
qed

lemma burst_ids: "map (\<lambda>p. msg_id (snd p)) (burst n) = map numbered_id [0..<n]"
  by (simp add: burst_def msg_text_def comp_def)

text \<open>
  A first sighting, a second sighting that leaves the order alone, and a burst of 1001
  messages after which the first id has left the ledger.
\<close>

theorem ledger_bounded_fifo_witness:
  "msg_id (msg_text ''m1'' ''hello'') \<notin> set (processed_ids chan0) \<and>
   processed_ids (snd (on_message env_ok (msg_text ''m1'' ''hello'') chan0)) = [''m1''] \<and>
   msg_id (msg_text ''m1'' ''again'') \<in> set (processed_ids (chan0\<lparr>processed_ids := [''m1'', ''m2'']\<rparr>)) \<and>
   processed_ids (snd (on_message env_ok (msg_text ''m1'' ''again'') (chan0\<lparr>processed_ids := [''m1'', ''m2'']\<rparr>)))
     = [''m1'', ''m2''] \<and>
   length (processed_ids chan0) \<le> 1000 \<and>
   distinct (map (\<lambda>p. msg_id (snd p)) (burst 1001)) \<and>
   set (map (\<lambda>p. msg_id (snd p)) (burst 1001)) \<inter> set (processed_ids chan0) = {} \<and>
   1000 < length (burst 1001) \<and>
   msg_id (snd (hd (burst 1001))) \<notin> set (processed_ids (deliver (burst 1001) chan0)) \<and>
   processed_ids (snd (on_message env_ok (snd (hd (burst 1001))) (deliver (burst 1001) chan0))) =
     tl (processed_ids (deliver (burst 1001) chan0)) @ [msg_id (snd (hd (burst 1001)))]"
proof -
  have h1: "msg_id (msg_text ''m1'' ''hello'') \<notin> set (processed_ids chan0)"
    by (simp add: chan0_def init_def)
  have h2: "msg_id (msg_text ''m1'' ''again'') \<in> set (processed_ids (chan0\<lparr>processed_ids := [''m1'', ''m2'']\<rparr>))"
    by (simp add: msg_text_def)
  have h3: "length (processed_ids chan0) \<le> 1000" by (simp add: chan0_def init_def)
  have h4: "distinct (map (\<lambda>p. msg_id (snd p)) (burst 1001))"
    by (simp add: burst_ids distinct_map inj_on_subset[OF numbered_id_inj])
  have h5: "set (map (\<lambda>p. msg_id (snd p)) (burst 1001)) \<inter> set (processed_ids chan0) = {}"
    by (simp add: chan0_def init_def)
  have h6: "1000 < length (burst 1001)" by (simp add: burst_def)
  note t1 = ledger_bounded_fifo[where data = "msg_text ''m1'' ''hello''" and s = chan0 and ev = env_ok]
  note t2 = ledger_bounded_fifo[where data = "msg_text ''m1'' ''again''"
              and s = "chan0\<lparr>processed_ids := [''m1'', ''m2'']\<rparr>" and ev = env_ok]
  note t3 = ledger_bounded_fifo[where s = chan0 and es' = "burst 1001" and ev' = env_ok]
  have c1: "processed_ids (snd (on_message env_ok (msg_text ''m1'' ''hello'') chan0)) = [''m1'']"
    using t1[THEN conjunct2, THEN conjunct1, rule_format, OF h1]
    by (simp add: chan0_def init_def msg_text_def)
  have c2: "processed_ids (snd (on_message env_ok (msg_text ''m1'' ''again'') (chan0\<lparr>processed_ids := [''m1'', ''m2'']\<rparr>)))
     = [''m1'', ''m2'']"
    using t2[THEN conjunct2, THEN conjunct2, THEN conjunct1, rule_format, OF h2] by simp
  have c3: "msg_id (snd (hd (burst 1001))) \<notin> set (processed_ids (deliver (burst 1001) chan0)) \<and>
   processed_ids (snd (on_message env_ok (snd (hd (burst 1001))) (deliver (burst 1001) chan0))) =
     tl (processed_ids (deliver (burst 1001) chan0)) @ [msg_id (snd (hd (burst 1001)))]"
    using t3[THEN conjunct2, THEN conjunct2, THEN conjunct2, rule_format] h3 h4 h5 h6 by blast
  show ?thesis using h1 h2 h3 h4 h5 h6 c1 c2 c3 by blast
qed

subsection \<open>C10: the id is marked before the event is processed\<close>

lemma deque_append_keeps_recent:
  assumes "x \<in> set (drop (length d - j) d)" and "j < n"
  shows "x \<in> set (drop (length (deque_append n d y) - Suc j) (deque_append n d y))"
proof (cases "n < Suc (length d)")
  case False
  then have "deque_append n d y = d @ [y]" by (simp add: deque_append_def Let_def)
  then show ?thesis using assms(1) by simp
next
  case True
  then obtain a d' where d: "d = a # d'" using assms(2) by (cases d) auto
  have e: "deque_append n d y = d' @ [y]" using True d by (simp add: deque_append_def Let_def)
  have j: "j \<le> length d'" using True assms(2) d by simp
  have "drop (length d - j) d = drop (length d' - j) d'"
    using j d by (simp add: Suc_diff_le)
  then show ?thesis using assms(1) j e by simp
qed

lemma drop_more_recent:
  "x \<in> set (drop (length d - j) d) \<Longrightarrow> x \<in> set (drop (length d - Suc j) d)"
proof -
  assume x: "x \<in> set (drop (length d - j) d)"
  have "length d - Suc j \<le> length d - j" by simp
  then have "set (drop (length d - j) d) \<subseteq> set (drop (length d - Suc j) d)"
    by (rule set_drop_subset_set_drop)
  then show ?thesis using x by blast
qed

lemma on_message_keeps_recent:
  assumes "x \<in> set (drop (length (processed_ids s) - j) (processed_ids s))"
    and "j < processed_ids_maxlen"
  shows "x \<in> set (drop (length (processed_ids (snd (on_message ev data s))) - Suc j)
                       (processed_ids (snd (on_message ev data s))))"
  using assms deque_append_keeps_recent[of x "processed_ids s" j processed_ids_maxlen "msg_id data"]
        drop_more_recent[of x "processed_ids s" j]
  by (simp add: on_message_processed_ids)

lemma deliver_keeps_recent:
  assumes "x \<in> set (drop (length (processed_ids s) - j) (processed_ids s))"
    and "j + length es \<le> processed_ids_maxlen"
  shows "x \<in> set (processed_ids (deliver es s))"
  using assms
proof (induction es arbitrary: s j)
  case Nil
  then show ?case by (auto dest: in_set_dropD)
next
  case (Cons p es)
  obtain ev data where p: "p = (ev, data)" by (cases p)
  have "j < processed_ids_maxlen" using Cons.prems(2) by simp
  then have "x \<in> set (drop (length (processed_ids (snd (on_message ev data s))) - Suc j)
                       (processed_ids (snd (on_message ev data s))))"
    using on_message_keeps_recent[OF Cons.prems(1)] by simp
  moreover have "Suc j + length es \<le> processed_ids_maxlen" using Cons.prems(2) by simp
  ultimately show ?case using Cons.IH p by simp
qed

lemma on_message_newest:
  "msg_id data \<notin> set (processed_ids s) \<Longrightarrow>
   last (processed_ids (snd (on_message ev data s))) = msg_id data \<and>
   processed_ids (snd (on_message ev data s)) \<noteq> []"
  by (cases "processed_ids s")
     (simp_all add: on_message_processed_ids deque_append_def Let_def processed_ids_maxlen_def)

lemma last_in_drop: "d \<noteq> [] \<Longrightarrow> last d \<in> set (drop (length d - Suc 0) d)"
proof -
  assume "d \<noteq> []"
  then obtain xs y where "d = xs @ [y]" by (cases d rule: rev_cases) auto
  then show ?thesis by simp
qed

text \<open>
  C10. For a first-seen event the id is put into the ledger before anything else
  happens, and nothing later takes it out: whether the \<open>try\<close> block publishes,
  discards the event as empty or raises, the ledger it leaves is the old one with the
  id appended. The id then stays through the next 999 deliveries, whatever they are,
  and during that time a delivery with the same id is dropped without a trace.
\<close>

theorem mark_precedes_processing:
  "msg_id data \<notin> set (processed_ids s) \<longrightarrow>
     processed_ids (snd (on_message_try ev data s)) =
       deque_append 1000 (processed_ids s) (msg_id data) \<and>
     processed_ids (snd (on_message ev data s)) =
       deque_append 1000 (processed_ids s) (msg_id data) \<and>
     last (processed_ids (snd (on_message ev data s))) = msg_id data \<and>
     (length es < 1000 \<and> msg_id data' = msg_id data \<longrightarrow>
        on_message ev' data' (deliver es (snd (on_message ev data s))) =
          (None, deliver es (snd (on_message ev data s))))"
proof (intro impI conjI)
  assume new: "msg_id data \<notin> set (processed_ids s)"
  show "processed_ids (snd (on_message_try ev data s)) =
       deque_append 1000 (processed_ids s) (msg_id data)"
    using on_message_try_processed_ids[OF new] by (simp add: processed_ids_maxlen_def)
  show "processed_ids (snd (on_message ev data s)) =
       deque_append 1000 (processed_ids s) (msg_id data)"
    using new by (simp add: on_message_processed_ids processed_ids_maxlen_def)
  show "last (processed_ids (snd (on_message ev data s))) = msg_id data"
    using on_message_newest[OF new] by simp
  assume h: "length es < 1000 \<and> msg_id data' = msg_id data"
  let ?s1 = "snd (on_message ev data s)"
  have "msg_id data \<in> set (drop (length (processed_ids ?s1) - Suc 0) (processed_ids ?s1))"
    using on_message_newest[OF new, of ev] last_in_drop[of "processed_ids ?s1"] by simp
  moreover have "Suc 0 + length es \<le> processed_ids_maxlen"
    using h by (simp add: processed_ids_maxlen_def)
  ultimately have "msg_id data \<in> set (processed_ids (deliver es ?s1))"
    by (rule deliver_keeps_recent)
  then show "on_message ev' data' (deliver es ?s1) = (None, deliver es ?s1)"
    using h by (simp add: on_message_dup)
qed


text \<open>
  An empty event, which is discarded, and a text message on a bus that is down, which
  aborts: both ids are in the ledger afterwards and the redelivery is dropped.
\<close>

theorem mark_precedes_processing_witness:
  "msg_id msg_empty \<notin> set (processed_ids chan0) \<and>
   on_message_try env_ok msg_empty chan0 = (None, chan0\<lparr>processed_ids := [''m-empty'']\<rparr>) \<and>
   processed_ids (snd (on_message env_ok msg_empty chan0)) = [''m-empty''] \<and>
   length [(env_ok, msg_text ''m2'' ''hi'')] < 1000 \<and>
   on_message env_ok msg_empty (deliver [(env_ok, msg_text ''m2'' ''hi'')] (snd (on_message env_ok msg_empty chan0)))
     = (None, deliver [(env_ok, msg_text ''m2'' ''hi'')] (snd (on_message env_ok msg_empty chan0))) \<and>
   msg_id (msg_text ''m1'' ''hello'') \<notin> set (processed_ids chan0) \<and>
   fst (on_message_try env_bus_down (msg_text ''m1'' ''hello'') chan0) = Some (RuntimeError ''bus closed'') \<and>
   processed_ids (snd (on_message env_bus_down (msg_text ''m1'' ''hello'') chan0)) = [''m1''] \<and>
   on_message env_ok (msg_text ''m1'' ''hello'') (snd (on_message env_bus_down (msg_text ''m1'' ''hello'') chan0))
     = (None, snd (on_message env_bus_down (msg_text ''m1'' ''hello'') chan0))"
proof -
  have n1: "msg_id msg_empty \<notin> set (processed_ids chan0)" by (simp add: chan0_def init_def)
  have n2: "msg_id (msg_text ''m1'' ''hello'') \<notin> set (processed_ids chan0)"
    by (simp add: chan0_def init_def)
  have d1: "on_message_try env_ok msg_empty chan0 = (None, chan0\<lparr>processed_ids := [''m-empty'']\<rparr>)"
    by code_simp
  have d2: "fst (on_message_try env_bus_down (msg_text ''m1'' ''hello'') chan0) = Some (RuntimeError ''bus closed'')"
    by code_simp
  note t1 = mark_precedes_processing[where data = msg_empty and s = chan0 and ev = env_ok
              and es = "[(env_ok, msg_text ''m2'' ''hi'')]" and data' = msg_empty and ev' = env_ok,
              THEN mp, OF n1]
  note t2 = mark_precedes_processing[where data = "msg_text ''m1'' ''hello''" and s = chan0
              and ev = env_bus_down and es = "[]" and data' = "msg_text ''m1'' ''hello''"
              and ev' = env_ok, THEN mp, OF n2]
  have p1: "processed_ids (snd (on_message env_ok msg_empty chan0)) = [''m-empty'']"
    using t1 by (simp add: deque_append_def chan0_def init_def msg_empty_def)
  have p2: "processed_ids (snd (on_message env_bus_down (msg_text ''m1'' ''hello'') chan0)) = [''m1'']"
    using t2 by (simp add: deque_append_def chan0_def init_def msg_text_def)
  have r1: "on_message env_ok msg_empty (deliver [(env_ok, msg_text ''m2'' ''hi'')] (snd (on_message env_ok msg_empty chan0)))
     = (None, deliver [(env_ok, msg_text ''m2'' ''hi'')] (snd (on_message env_ok msg_empty chan0)))"
    using t1 by simp
  have r2: "on_message env_ok (msg_text ''m1'' ''hello'') (snd (on_message env_bus_down (msg_text ''m1'' ''hello'') chan0))
     = (None, snd (on_message env_bus_down (msg_text ''m1'' ''hello'') chan0))"
    using t2 by simp
  show ?thesis using n1 n2 d1 d2 p1 p2 r1 r2 by simp
qed

subsection \<open>C3: the command block\<close>

lemma partition_sep_Some:
  "partition_sep sep s = Some (a, b) \<Longrightarrow> s = a @ sep # b \<and> sep \<notin> set a"
  by (induction s arbitrary: a) (auto split: if_splits option.splits)

lemma partition_sep_None: "partition_sep sep s = None \<Longrightarrow> sep \<notin> set s"
  by (induction s) (auto split: if_splits option.splits)

lemma split_max_nonempty: "split_max sep n s \<noteq> []"
  by (cases n) (simp_all split: option.splits)

lemma split_max_length: "length (split_max sep n s) \<le> Suc n"
  by (induction n arbitrary: s) (auto split: option.splits)

lemma join_sp_Cons: "ps \<noteq> [] \<Longrightarrow> join_sp (p # ps) = p @ CHR '' '' # join_sp ps"
  by (cases ps) simp_all

lemma join_sp_split_max: "join_sp (split_max (CHR '' '') n s) = s"
proof (induction n arbitrary: s)
  case 0
  show ?case by simp
next
  case (Suc n)
  show ?case
  proof (cases "partition_sep (CHR '' '') s")
    case None
    then show ?thesis by simp
  next
    case (Some ab)
    obtain a b where ab: "ab = (a, b)" by (cases ab)
    have "s = a @ CHR '' '' # b" using partition_sep_Some Some ab by blast
    then show ?thesis using Some ab Suc.IH[of b] by (simp add: join_sp_Cons split_max_nonempty)
  qed
qed






lemma decimal_snoc: "decimal (s @ [c]) = 10 * decimal s + digit_val c"
  by (simp add: decimal_def)





text \<open>
  An argument that passes \<open>isdigit\<close> without being decimal: the superscript two.
  \<open>int\<close> raises, and the handler drops the message with an error in the log.
\<close>

lemma superscript_argument_raises:
  "isdigit [CHR 0xB2] \<and>
   parse_command 4300 (''/context '' @ [CHR 0xB2]) md0 =
     Inl (ValueError (''invalid literal for int() with base 10: '' @ [CHR 0x27, CHR 0xB2, CHR 0x27])) \<and>
   bus (snd (on_message env_ok (msg_text ''m1'' (''/context '' @ [CHR 0xB2])) chan0)) = [] \<and>
   length (log (snd (on_message env_ok (msg_text ''m1'' (''/context '' @ [CHR 0xB2])) chan0))) = 1"
  by code_simp

subsection \<open>C4: the client instance of the reconnect loop\<close>

lemma run_bot_client:
  "client (run_bot script s) = client s \<and> next_obj (run_bot script s) = next_obj s \<and>
   running (run_bot script s) = running s"
proof (induction script arbitrary: s)
  case Nil
  show ?case by simp
next
  case (Cons p script)
  obtain connected slept where p: "p = (connected, slept)" by (cases p)
  show ?case
    using Cons.IH
    by (simp add: p client_start_def Let_def split: option.splits await_result.splits)
qed

lemma run_bot_connects:
  "client s = Some c \<Longrightarrow>
   \<exists>k\<le>length script. connects (run_bot script s) = connects s @ replicate k c"
proof (induction script arbitrary: s)
  case Nil
  show ?case by simp
next
  case (Cons p script)
  obtain connected slept where p: "p = (connected, slept)" by (cases p)
  have step: "\<And>s' :: channel. client s' = Some c \<Longrightarrow> connects s' = connects s @ [c] \<Longrightarrow>
     \<exists>k\<le>length (p # script). connects (run_bot script s') = connects s @ replicate k c"
  proof -
    fix s' :: channel assume c: "client s' = Some c" and e: "connects s' = connects s @ [c]"
    obtain k where "k \<le> length script" "connects (run_bot script s') = connects s' @ replicate k c"
      using Cons.IH[OF c] by blast
    then have "Suc k \<le> length (p # script) \<and> connects (run_bot script s') = connects s @ replicate (Suc k) c"
      using e by simp
    then show "\<exists>k\<le>length (p # script). connects (run_bot script s') = connects s @ replicate k c"
      by blast
  qed
  have one: "\<exists>k\<le>length (p # script). connects s @ [c] = connects s @ replicate k c"
    by (rule exI[of _ "Suc 0"]) simp
  have zero: "\<exists>k\<le>length (p # script). connects s = connects s @ replicate k c"
    by (rule exI[of _ 0]) simp
  show ?case
    using Cons.prems step one zero
    by (simp add: p client_start_def Let_def split: option.splits await_result.splits)
qed

lemma run_bot_no_client: "client s = None \<Longrightarrow> connects (run_bot script s) = connects s"
proof (induction script arbitrary: s)
  case Nil
  show ?case by simp
next
  case (Cons p script)
  obtain connected slept where p: "p = (connected, slept)" by (cases p)
  show ?case
    using Cons
    by (simp add: p client_start_def Let_def split: option.splits await_result.splits)
qed


text \<open>
  C4, amended. The loop never instantiates a client: it leaves \<open>_client\<close> and the
  allocator as they are, and every connection attempt it makes, at most one per pass,
  is made on the one client the channel holds. \<open>start\<close> is where that client is
  created, with a fresh identity, so after \<open>start\<close> on a channel that has made no
  attempt yet all attempts are on this single instance.
\<close>

theorem one_client_for_all_attempts:
  "client (run_bot script s) = client s \<and>
   next_obj (run_bot script s) = next_obj s \<and>
   (client s = Some c \<longrightarrow>
      (\<exists>k\<le>length script. connects (run_bot script s) = connects s @ replicate k c)) \<and>
   (client s = None \<longrightarrow> connects (run_bot script s) = connects s) \<and>
   (qq_available ev \<and> truthy (app_id s) \<and> truthy (secret s) \<longrightarrow>
      client (start ev s) = Some (next_obj s) \<and> next_obj s < next_obj (start ev s) \<and>
      set (connects (run_bot script (start ev s))) \<subseteq> set (connects s) \<union> {next_obj s})"
proof (intro conjI impI)
  show "client (run_bot script s) = client s" by (simp add: run_bot_client)
  show "next_obj (run_bot script s) = next_obj s" by (simp add: run_bot_client)
next
  assume "client s = Some c"
  then show "\<exists>k\<le>length script. connects (run_bot script s) = connects s @ replicate k c"
    by (rule run_bot_connects)
next
  assume "client s = None"
  then show "connects (run_bot script s) = connects s" by (rule run_bot_no_client)
next
  assume h: "qq_available ev \<and> truthy (app_id s) \<and> truthy (secret s)"
  then show c: "client (start ev s) = Some (next_obj s)" by (simp add: start_def)
  show "next_obj s < next_obj (start ev s)" using h by (simp add: start_def)
  have "connects (start ev s) = connects s" using h by (simp add: start_def)
  moreover obtain k where "connects (run_bot script (start ev s)) = connects (start ev s) @ replicate k (next_obj s)"
    using run_bot_connects[OF c, of script] by blast
  ultimately show "set (connects (run_bot script (start ev s))) \<subseteq> set (connects s) \<union> {next_obj s}"
    by auto
qed

text \<open>
  C4 as stated fails: after a connection that fails and one that ends, both attempts
  were made on the client numbered 0 and no other object was created.
\<close>

theorem reconnect_reuses_client_counterexample:
  "connects (run_bot flaky_script (start env_ok chan0)) = [0, 0] \<and>
   \<not> distinct (connects (run_bot flaky_script (start env_ok chan0))) \<and>
   next_obj (run_bot flaky_script (start env_ok chan0)) = next_obj (start env_ok chan0)"
  by code_simp

text \<open>The same run, and a loop started on a channel without a client.\<close>

theorem one_client_for_all_attempts_witness:
  "client (start env_ok chan0) = Some 0 \<and>
   (\<exists>k\<le>length flaky_script.
      connects (run_bot flaky_script (start env_ok chan0)) = connects (start env_ok chan0) @ replicate k 0) \<and>
   client chan0 = None \<and> connects (run_bot flaky_script (chan0\<lparr>running := True\<rparr>)) = [] \<and>
   qq_available env_ok \<and> truthy (app_id chan0) \<and> truthy (secret chan0) \<and>
   set (connects (run_bot flaky_script (start env_ok chan0))) \<subseteq> {0}"
proof -
  have c: "client (start env_ok chan0) = Some 0" by code_simp
  have n: "client (chan0\<lparr>running := True\<rparr>) = None" by (simp add: chan0_def init_def)
  have n': "client chan0 = None" by (simp add: chan0_def init_def)
  have q: "qq_available env_ok \<and> truthy (app_id chan0) \<and> truthy (secret chan0)"
    by (simp add: env_ok_def chan0_def init_def)
  have z: "next_obj chan0 = 0" "connects chan0 = []" by (simp_all add: chan0_def init_def)
  note t1 = one_client_for_all_attempts[where s = "start env_ok chan0" and c = 0 and script = flaky_script,
              THEN conjunct2, THEN conjunct2, THEN conjunct1, rule_format, OF c]
  note t2 = one_client_for_all_attempts[where s = "chan0\<lparr>running := True\<rparr>" and script = flaky_script,
              THEN conjunct2, THEN conjunct2, THEN conjunct2, THEN conjunct1, rule_format, OF n]
  note t3 = one_client_for_all_attempts[where s = chan0 and ev = env_ok and script = flaky_script,
              THEN conjunct2, THEN conjunct2, THEN conjunct2, THEN conjunct2, rule_format, OF q]
  have "connects (run_bot flaky_script (chan0\<lparr>running := True\<rparr>)) = []"
    using t2 by (simp add: chan0_def init_def)
  moreover have "set (connects (run_bot flaky_script (start env_ok chan0))) \<subseteq> {0}"
    using t3 z by simp
  ultimately show ?thesis using c t1 n' q by blast
qed

subsection \<open>C6: \<open>start\<close> without credentials\<close>

lemma run_bot_not_running: "\<not> running s \<Longrightarrow> run_bot script s = s"
proof (cases script)
  case Nil
  then show ?thesis by simp
next
  case (Cons p rest)
  assume "\<not> running s"
  then show ?thesis using Cons by (cases p) simp
qed

text \<open>
  C6. When the application id or the secret is absent or empty, \<open>start\<close> returns the
  state it was given with one error line added to the log: the running flag, the
  client, the task and the allocator are untouched and no connection is attempted. On
  a channel just constructed this means: not running, no client, no task, no attempt;
  and the reconnect loop, were it run on that state, would return at once.
\<close>

theorem start_without_credentials:
  "(\<not> truthy (app_id s) \<or> \<not> truthy (secret s) \<longrightarrow>
     start ev s =
       logger (LogError (if qq_available ev then ''QQ app_id and secret not configured''
                         else ''QQ SDK not installed. Run: pip install qq-botpy'')) s \<and>
     running (start ev s) = running s \<and> client (start ev s) = client s \<and>
     bot_task (start ev s) = bot_task s \<and> connects (start ev s) = connects s \<and>
     next_obj (start ev s) = next_obj s \<and> same_self s (start ev s)) \<and>
   (\<not> truthy a \<or> \<not> truthy b \<longrightarrow>
     \<not> running (start ev (init a b)) \<and> client (start ev (init a b)) = None \<and>
     bot_task (start ev (init a b)) = None \<and> connects (start ev (init a b)) = [] \<and>
     run_bot script (start ev (init a b)) = start ev (init a b))"
proof (intro conjI impI)
  assume h: "\<not> truthy (app_id s) \<or> \<not> truthy (secret s)"
  then show e: "start ev s =
       logger (LogError (if qq_available ev then ''QQ app_id and secret not configured''
                         else ''QQ SDK not installed. Run: pip install qq-botpy'')) s"
    by (auto simp: start_def)
  show "running (start ev s) = running s" "client (start ev s) = client s"
    "bot_task (start ev s) = bot_task s" "connects (start ev s) = connects s"
    "next_obj (start ev s) = next_obj s" "same_self s (start ev s)"
    by (simp_all add: e same_self_def)
next
  assume h: "\<not> truthy a \<or> \<not> truthy b"
  then have e: "start ev (init a b) =
       logger (LogError (if qq_available ev then ''QQ app_id and secret not configured''
                         else ''QQ SDK not installed. Run: pip install qq-botpy'')) (init a b)"
    by (auto simp: start_def init_def)
  show r: "\<not> running (start ev (init a b))" by (simp add: e) (simp add: init_def)
  show "client (start ev (init a b)) = None" by (simp add: e) (simp add: init_def)
  show "bot_task (start ev (init a b)) = None" by (simp add: e) (simp add: init_def)
  show "connects (start ev (init a b)) = []" by (simp add: e) (simp add: init_def)
  show "run_bot script (start ev (init a b)) = start ev (init a b)"
    using r by (rule run_bot_not_running)
qed

text \<open>An empty secret, and an application id that is \<open>None\<close>.\<close>

theorem start_without_credentials_witness:
  "\<not> truthy (secret (init (PyStr ''102030'') (PyStr []))) \<and>
   start env_ok (init (PyStr ''102030'') (PyStr [])) =
     (init (PyStr ''102030'') (PyStr []))\<lparr>log := [LogError ''QQ app_id and secret not configured'']\<rparr> \<and>
   \<not> truthy PyNone \<and>
   \<not> running (start env_ok (init PyNone (PyStr ''s3cr3t''))) \<and>
   client (start env_ok (init PyNone (PyStr ''s3cr3t''))) = None \<and>
   bot_task (start env_ok (init PyNone (PyStr ''s3cr3t''))) = None \<and>
   connects (start env_ok (init PyNone (PyStr ''s3cr3t''))) = []"
proof -
  have h1: "\<not> truthy (app_id (init (PyStr ''102030'') (PyStr []))) \<or>
            \<not> truthy (secret (init (PyStr ''102030'') (PyStr [])))"
    by (simp add: init_def)
  have h2: "\<not> truthy PyNone \<or> \<not> truthy (PyStr ''s3cr3t'')" by simp
  note t1 = start_without_credentials[where s = "init (PyStr ''102030'') (PyStr [])" and ev = env_ok,
              THEN conjunct1, rule_format, OF h1]
  note t2 = start_without_credentials[where a = PyNone and b = "PyStr ''s3cr3t''" and ev = env_ok,
              THEN conjunct2, rule_format, OF h2]
  have "start env_ok (init (PyStr ''102030'') (PyStr [])) =
     (init (PyStr ''102030'') (PyStr []))\<lparr>log := [LogError ''QQ app_id and secret not configured'']\<rparr>"
    using t1 by (simp add: logger_def env_ok_def init_def)
  then show ?thesis using t2 by (simp add: init_def)
qed

subsection \<open>What the handler does with a first-seen event\<close>

lemma download_media_fst:
  "fst (download_media ev url s) = download_path ev (length (requests s)) url"
  by (simp add: download_media_def download_path_def Let_def split: sum.splits option.splits prod.splits)

lemma download_media_requests:
  "requests (snd (download_media ev url s)) = requests s @ [url]"
  by (simp add: download_media_def Let_def split: sum.splits option.splits prod.splits)

lemma download_path_nonempty: "download_path ev n url = Some p \<Longrightarrow> p \<noteq> []"
  by (auto simp: download_path_def download_try_def Let_def
           split: sum.splits option.splits prod.splits http_result.splits if_splits)

lemma fetch_media_fst:
  "fst (fetch_media ev atts media s) = media @ fetched_media ev (length (requests s)) atts"
proof (induction atts arbitrary: media s)
  case Nil
  show ?case by (simp add: fetched_media_def List.map_filter_simps)
next
  case (Cons att atts)
  show ?case
  proof (cases "att_url att")
    case None
    then show ?thesis using Cons.IH by (simp add: fetched_media_def)
  next
    case (Some u)
    show ?thesis
    proof (cases "truthy u")
      case False
      then show ?thesis using Some Cons.IH by (simp add: fetched_media_def)
    next
      case True
      obtain r s' where d: "download_media ev (py_str u) s = (r, s')"
        by (cases "download_media ev (py_str u) s")
      have r: "r = download_path ev (length (requests s)) (py_str u)"
        using download_media_fst[of ev "py_str u" s] d by simp
      have len: "length (requests s') = Suc (length (requests s))"
        using download_media_requests[of ev "py_str u" s] d by simp
      have u: "usable_urls (att # atts) = py_str u # usable_urls atts"
        using Some True by simp
      show ?thesis
      proof (cases r)
        case None
        then show ?thesis
          using Some True d r len Cons.IH[of media s']
          by (simp add: fetched_media_def List.map_filter_simps)
      next
        case (Some p)
        then have "p \<noteq> []" using r download_path_nonempty by metis
        then show ?thesis
          using \<open>att_url att = Some u\<close> Some True d r len Cons.IH[of "media @ [p]" s']
          by (simp add: fetched_media_def List.map_filter_simps)
      qed
    qed
  qed
qed

lemma on_message_try_new:
  assumes "msg_id data \<notin> set (processed_ids s)"
    and "parse_command (max_str_digits ev) (raw_content data) [(''message_id'', MStr (msg_id data))] = Inr (text, meta)"
  shows "\<exists>s2. same_self (s\<lparr>processed_ids := deque_append processed_ids_maxlen (processed_ids s) (msg_id data)\<rparr>) s2 \<and>
     on_message_try ev data s =
       (if text = [] \<and> fetched_media ev (length (requests s)) (event_attachments data) = [] then (None, s2)
        else handle_message ev (canonical data text meta
               (fetched_media ev (length (requests s)) (event_attachments data))) s2)"
proof -
  let ?s1 = "s\<lparr>processed_ids := deque_append processed_ids_maxlen (processed_ids s) (msg_id data)\<rparr>"
  obtain media s2 where f: "fetch_media ev (event_attachments data) [] ?s1 = (media, s2)"
    by (cases "fetch_media ev (event_attachments data) [] ?s1")
  have m: "media = fetched_media ev (length (requests s)) (event_attachments data)"
    using fetch_media_fst[of ev "event_attachments data" "[]" ?s1] f by simp
  have ss: "same_self ?s1 s2"
    using fetch_media_same_self[of ?s1 ev "event_attachments data" "[]"] f by simp
  have "on_message_try ev data s =
       (if text = [] \<and> media = [] then (None, s2)
        else handle_message ev (canonical data text meta media) s2)"
    using assms f
    by (simp add: on_message_try_def Let_def raw_content_def event_attachments_def canonical_def)
  then show ?thesis using ss m by blast
qed

lemma on_message_try_raises:
  assumes "on_message_try ev data s = (Some e, s')"
  shows "bus s' = bus s \<and>
     (parse_command (max_str_digits ev) (raw_content data) [(''message_id'', MStr (msg_id data))] = Inl e \<or>
      (\<exists>m. publish_raises ev m = Some e))"
proof (cases "msg_id data \<in> set (processed_ids s)")
  case True
  then show ?thesis using assms by (simp add: on_message_try_dup)
next
  case new: False
  let ?s1 = "s\<lparr>processed_ids := deque_append processed_ids_maxlen (processed_ids s) (msg_id data)\<rparr>"
  show ?thesis
  proof (cases "parse_command (max_str_digits ev) (raw_content data) [(''message_id'', MStr (msg_id data))]")
    case (Inl e')
    then show ?thesis using assms new
      by (auto simp: on_message_try_def Let_def raw_content_def)
  next
    case (Inr tm)
    obtain ctext meta where tm: "tm = (ctext, meta)" by (cases tm)
    obtain s2 where ss: "same_self ?s1 s2" and
      o: "on_message_try ev data s =
       (if ctext = [] \<and> fetched_media ev (length (requests s)) (event_attachments data) = [] then (None, s2)
        else handle_message ev (canonical data ctext meta
               (fetched_media ev (length (requests s)) (event_attachments data))) s2)"
      using on_message_try_new[OF new Inr[unfolded tm]] by blast
    have b: "bus s2 = bus s" using ss by (simp add: same_self_def)
    show ?thesis using assms o b
      by (auto simp: handle_message_def split: if_splits option.splits)
  qed
qed

lemma on_message_publishes:
  assumes new: "msg_id data \<notin> set (processed_ids s)"
    and p: "parse_command (max_str_digits ev) (raw_content data) [(''message_id'', MStr (msg_id data))] = Inr (ctext, meta)"
  shows "bus (snd (on_message ev data s)) =
     (if ctext = [] \<and> fetched_media ev (length (requests s)) (event_attachments data) = [] then bus s
      else if publish_raises ev (canonical data ctext meta
                (fetched_media ev (length (requests s)) (event_attachments data))) = None
      then bus s @ [canonical data ctext meta
                (fetched_media ev (length (requests s)) (event_attachments data))]
      else bus s)"
proof -
  let ?s1 = "s\<lparr>processed_ids := deque_append processed_ids_maxlen (processed_ids s) (msg_id data)\<rparr>"
  obtain s2 where ss: "same_self ?s1 s2" and
    o: "on_message_try ev data s =
       (if ctext = [] \<and> fetched_media ev (length (requests s)) (event_attachments data) = [] then (None, s2)
        else handle_message ev (canonical data ctext meta
               (fetched_media ev (length (requests s)) (event_attachments data))) s2)"
    using on_message_try_new[OF new p] by blast
  have b: "bus s2 = bus s" using ss by (simp add: same_self_def)
  show ?thesis using o b by (simp add: on_message_snd handle_message_bus)
qed

lemma on_message_published:
  assumes "bus (snd (on_message ev data s)) = bus s @ [m]"
  shows "\<exists>ctext meta media. m = canonical data ctext meta media"
proof (cases "msg_id data \<in> set (processed_ids s)")
  case True
  then show ?thesis using assms by (simp add: on_message_dup)
next
  case new: False
  show ?thesis
  proof (cases "parse_command (max_str_digits ev) (raw_content data) [(''message_id'', MStr (msg_id data))]")
    case (Inl e)
    then show ?thesis using assms new
      by (auto simp: on_message_snd on_message_try_def Let_def raw_content_def)
  next
    case (Inr tm)
    obtain ctext meta where tm: "tm = (ctext, meta)" by (cases tm)
    let ?s1 = "s\<lparr>processed_ids := deque_append processed_ids_maxlen (processed_ids s) (msg_id data)\<rparr>"
    obtain s2 where ss: "same_self ?s1 s2" and
      o: "on_message_try ev data s =
       (if ctext = [] \<and> fetched_media ev (length (requests s)) (event_attachments data) = [] then (None, s2)
        else handle_message ev (canonical data ctext meta
               (fetched_media ev (length (requests s)) (event_attachments data))) s2)"
      using on_message_try_new[OF new Inr[unfolded tm]] by blast
    have b: "bus s2 = bus s" using ss by (simp add: same_self_def)
    have "m = canonical data ctext meta (fetched_media ev (length (requests s)) (event_attachments data))"
      using assms o b
      by (auto simp: on_message_snd handle_message_def split: if_splits option.splits)
    then show ?thesis by blast
  qed
qed

subsection \<open>C5: the handler never raises\<close>

text \<open>
  C5. No exception leaves the handler, whatever the event and whatever the outside
  world does. When the \<open>try\<close> block ends normally the handler returns its state.
  When the block raises, which only \<open>int\<close> in the command block and the publication
  can do, since a failed download is caught inside \<open>_download_media\<close>, the handler
  returns the state reached with one error line added to the log, and nothing has
  been put on the bus.
\<close>

theorem handler_never_raises:
  "fst (on_message ev data s) = None \<and>
   (on_message_try ev data s = (None, s') \<longrightarrow> on_message ev data s = (None, s')) \<and>
   (on_message_try ev data s = (Some e, s') \<longrightarrow>
      on_message ev data s =
        (None, logger (LogError (''Error handling QQ message: '' @ exc_str e)) s') \<and>
      bus (snd (on_message ev data s)) = bus s \<and>
      (parse_command (max_str_digits ev) (raw_content data) [(''message_id'', MStr (msg_id data))] = Inl e \<or>
       (\<exists>m. publish_raises ev m = Some e)))"
proof (intro conjI impI)
  show "fst (on_message ev data s) = None"
    by (simp add: on_message_def split: prod.splits option.splits)
next
  assume "on_message_try ev data s = (None, s')"
  then show "on_message ev data s = (None, s')" by (simp add: on_message_def)
next
  assume r: "on_message_try ev data s = (Some e, s')"
  then show "on_message ev data s =
        (None, logger (LogError (''Error handling QQ message: '' @ exc_str e)) s')"
    by (simp add: on_message_def)
  show "bus (snd (on_message ev data s)) = bus s"
    using on_message_try_raises[OF r] r by (simp add: on_message_snd)
  show "parse_command (max_str_digits ev) (raw_content data) [(''message_id'', MStr (msg_id data))] = Inl e \<or>
       (\<exists>m. publish_raises ev m = Some e)"
    using on_message_try_raises[OF r] by blast
qed

text \<open>
  An event that is discarded, one on which \<open>int\<close> raises, and one that the bus
  refuses.
\<close>

theorem handler_never_raises_witness:
  "on_message_try env_ok msg_empty chan0 = (None, chan0\<lparr>processed_ids := [''m-empty'']\<rparr>) \<and>
   on_message env_ok msg_empty chan0 = (None, chan0\<lparr>processed_ids := [''m-empty'']\<rparr>) \<and>
   on_message_try env_ok msg_superscript chan0 =
     (Some (ValueError (''invalid literal for int() with base 10: '' @ [CHR 0x27, CHR 0xB2, CHR 0x27])),
      chan0\<lparr>processed_ids := [''m-sup'']\<rparr>) \<and>
   fst (on_message env_ok msg_superscript chan0) = None \<and>
   bus (snd (on_message env_ok msg_superscript chan0)) = bus chan0 \<and>
   on_message_try env_bus_down (msg_text ''m1'' ''hello'') chan0 =
     (Some (RuntimeError ''bus closed''), chan0\<lparr>processed_ids := [''m1'']\<rparr>) \<and>
   on_message env_bus_down (msg_text ''m1'' ''hello'') chan0 =
     (None, logger (LogError (''Error handling QQ message: '' @ exc_str (RuntimeError ''bus closed'')))
              (chan0\<lparr>processed_ids := [''m1'']\<rparr>))"
proof -
  have a: "on_message_try env_ok msg_empty chan0 = (None, chan0\<lparr>processed_ids := [''m-empty'']\<rparr>)"
    by code_simp
  have b: "on_message_try env_ok msg_superscript chan0 =
     (Some (ValueError (''invalid literal for int() with base 10: '' @ [CHR 0x27, CHR 0xB2, CHR 0x27])),
      chan0\<lparr>processed_ids := [''m-sup'']\<rparr>)"
    by code_simp
  have c: "on_message_try env_bus_down (msg_text ''m1'' ''hello'') chan0 =
     (Some (RuntimeError ''bus closed''), chan0\<lparr>processed_ids := [''m1'']\<rparr>)"
    by code_simp
  note ta = handler_never_raises[where ev = env_ok and data = msg_empty and s = chan0,
              THEN conjunct2, THEN conjunct1, rule_format, OF a]
  note tb = handler_never_raises[where ev = env_ok and data = msg_superscript and s = chan0,
              THEN conjunct2, THEN conjunct2, rule_format, OF b]
  note tb0 = handler_never_raises[where ev = env_ok and data = msg_superscript and s = chan0,
              THEN conjunct1]
  note tc = handler_never_raises[where ev = env_bus_down and data = "msg_text ''m1'' ''hello''" and s = chan0,
              THEN conjunct2, THEN conjunct2, rule_format, OF c]
  show ?thesis using a b c ta tb tb0 tc by blast
qed

subsection \<open>C7: failed downloads are skipped\<close>



subsection \<open>C8: an event with neither text nor media\<close>

lemma strip_last: "strip s \<noteq> [] \<Longrightarrow> \<not> isspace (last (strip s))"
proof -
  assume ne: "strip s \<noteq> []"
  let ?r = "dropWhile isspace (rev (dropWhile isspace s))"
  have "?r \<noteq> []" using ne by (simp add: strip_def)
  then have "\<not> isspace (hd ?r)" by (rule hd_dropWhile)
  moreover have "last (strip s) = hd ?r" using \<open>?r \<noteq> []\<close> by (simp add: strip_def last_rev)
  ultimately show ?thesis by simp
qed

lemma third_part_nonempty:
  assumes "c \<noteq> []" and "\<not> isspace (last c)" and "2 < length (command_parts c)"
  shows "command_parts c ! 2 \<noteq> []"
proof
  assume e: "command_parts c ! 2 = []"
  have "length (command_parts c) \<le> 3"
    using split_max_length[of "CHR '' ''" 2 c] by (simp add: command_parts_def)
  then have "length (command_parts c) = 3" using assms(3) by simp
  then obtain a b d where abd: "command_parts c = [a, b, d]"
    by (cases "command_parts c" rule: list.exhaust)
       (auto simp: length_Suc_conv numeral_3_eq_3)
  have "d = []" using e abd by simp
  moreover have "join_sp (command_parts c) = c" by (simp add: command_parts_def join_sp_split_max)
  ultimately have "c = a @ CHR '' '' # b @ [CHR '' '']" using abd by simp
  then have "last c = CHR '' ''" by simp
  then show False using assms(2) by (simp add: isspace_def)
qed

lemma parse_command_content_empty:
  assumes "parse_command lim (strip x) md = Inr (ctext, meta)"
  shows "(ctext = []) = (strip x = [])"
proof (cases "strip x = []")
  case True
  then show ?thesis using assms by (simp add: parse_command_def)
next
  case False
  then have l: "\<not> isspace (last (strip x))" by (rule strip_last)
  have t: "2 < length (command_parts (strip x)) \<Longrightarrow> command_parts (strip x) ! 2 \<noteq> []"
    using third_part_nonempty[OF False l] .
  have "ctext \<noteq> []"
    using assms False t
    by (auto simp: parse_command_def Let_def command_parts_def split: if_splits sum.splits)
  then show ?thesis using False by simp
qed

lemma parse_command_empty: "parse_command lim [] md = Inr ([], md)"
  by (simp add: parse_command_def)

text \<open>
  C8. Take a first-seen event whose command block ends normally with some content.
  When that content is empty and no download yielded a path, the handler returns
  without publishing. Otherwise it hands the canonical message to \<open>_handle_message\<close>,
  and a bus that accepts it then holds it as its newest message. In particular an event
  whose trimmed content is empty and whose attachments yield no path publishes
  nothing; and the content the command block leaves is empty only when the trimmed
  content was. The content of the canonical message is the text, or the placeholder
  \<open>[Image Message]\<close> when the text is empty.
\<close>

theorem empty_message_suppression:
  "(msg_id data \<notin> set (processed_ids s) \<and>
    parse_command (max_str_digits ev) (raw_content data) [(''message_id'', MStr (msg_id data))] = Inr (ctext, meta) \<longrightarrow>
      (ctext = [] \<and> fetched_media ev (length (requests s)) (event_attachments data) = [] \<longrightarrow>
         fst (on_message_try ev data s) = None \<and> bus (snd (on_message ev data s)) = bus s) \<and>
      (\<not> (ctext = [] \<and> fetched_media ev (length (requests s)) (event_attachments data) = []) \<longrightarrow>
         (\<exists>s2. bus s2 = bus s \<and>
            on_message_try ev data s =
              handle_message ev (canonical data ctext meta
                (fetched_media ev (length (requests s)) (event_attachments data))) s2) \<and>
         (publish_raises ev (canonical data ctext meta
             (fetched_media ev (length (requests s)) (event_attachments data))) = None \<longrightarrow>
            bus (snd (on_message ev data s)) =
              bus s @ [canonical data ctext meta
                         (fetched_media ev (length (requests s)) (event_attachments data))])) \<and>
      (ctext = []) = (raw_content data = [])) \<and>
   (msg_id data \<notin> set (processed_ids s) \<and> raw_content data = [] \<and>
    fetched_media ev (length (requests s)) (event_attachments data) = [] \<longrightarrow>
      bus (snd (on_message ev data s)) = bus s) \<and>
   in_content (canonical data ctext meta media) = (if ctext = [] then ''[Image Message]'' else ctext) \<and>
   in_media (canonical data ctext meta media) = media \<and>
   in_metadata (canonical data ctext meta media) = meta"
proof (intro conjI impI)
  assume h: "msg_id data \<notin> set (processed_ids s) \<and>
    parse_command (max_str_digits ev) (raw_content data) [(''message_id'', MStr (msg_id data))] = Inr (ctext, meta)"
  let ?media = "fetched_media ev (length (requests s)) (event_attachments data)"
  let ?s1 = "s\<lparr>processed_ids := deque_append processed_ids_maxlen (processed_ids s) (msg_id data)\<rparr>"
  obtain s2 where ss: "same_self ?s1 s2" and
    o: "on_message_try ev data s =
       (if ctext = [] \<and> ?media = [] then (None, s2)
        else handle_message ev (canonical data ctext meta ?media) s2)"
    using on_message_try_new[of data s ev ctext meta] h by blast
  have b: "bus s2 = bus s" using ss by (simp add: same_self_def)
  {
    assume e: "ctext = [] \<and> ?media = []"
    show "fst (on_message_try ev data s) = None" using o e by simp
    show "bus (snd (on_message ev data s)) = bus s"
      using on_message_publishes[of data s ev ctext meta] h e by simp
  }
  {
    assume ne: "\<not> (ctext = [] \<and> ?media = [])"
    show "\<exists>s2. bus s2 = bus s \<and>
            on_message_try ev data s = handle_message ev (canonical data ctext meta ?media) s2"
      using o b ne by auto
    assume "publish_raises ev (canonical data ctext meta ?media) = None"
    then show "bus (snd (on_message ev data s)) = bus s @ [canonical data ctext meta ?media]"
      using on_message_publishes[of data s ev ctext meta] h ne by auto
  }
  show "(ctext = []) = (raw_content data = [])"
    using h parse_command_content_empty[of "max_str_digits ev"
            "py_str (py_or (msg_content data) (PyStr []))"
            "[(''message_id'', MStr (msg_id data))]" ctext meta]
    by (simp add: raw_content_def)
next
  assume h: "msg_id data \<notin> set (processed_ids s) \<and> raw_content data = [] \<and>
    fetched_media ev (length (requests s)) (event_attachments data) = []"
  then show "bus (snd (on_message ev data s)) = bus s"
    using on_message_publishes[of data s ev "[]" "[(''message_id'', MStr (msg_id data))]"]
    by (simp add: parse_command_empty)
qed (simp_all add: canonical_def)


text \<open>An event without text and attachments, and one with an image only.\<close>

theorem empty_message_suppression_witness:
  "msg_id msg_empty \<notin> set (processed_ids chan0) \<and>
   parse_command (max_str_digits env_ok) (raw_content msg_empty) [(''message_id'', MStr (msg_id msg_empty))]
     = Inr ([], [(''message_id'', MStr ''m-empty'')]) \<and>
   fetched_media env_ok (length (requests chan0)) (event_attachments msg_empty) = [] \<and>
   raw_content msg_empty = [] \<and>
   bus (snd (on_message env_ok msg_empty chan0)) = bus chan0 \<and>
   msg_id msg_two_images \<notin> set (processed_ids chan0) \<and>
   parse_command (max_str_digits env_ok) (raw_content msg_two_images)
     [(''message_id'', MStr (msg_id msg_two_images))] = Inr ([], [(''message_id'', MStr ''m-img'')]) \<and>
   fetched_media env_ok (length (requests chan0)) (event_attachments msg_two_images) = [''/tmp/tmpxx.png''] \<and>
   publish_raises env_ok (canonical msg_two_images [] [(''message_id'', MStr ''m-img'')] [''/tmp/tmpxx.png'']) = None \<and>
   bus (snd (on_message env_ok msg_two_images chan0)) =
     bus chan0 @ [canonical msg_two_images [] [(''message_id'', MStr ''m-img'')] [''/tmp/tmpxx.png'']] \<and>
   in_content (canonical msg_two_images [] [(''message_id'', MStr ''m-img'')] [''/tmp/tmpxx.png''])
     = ''[Image Message]''"
proof -
  have n1: "msg_id msg_empty \<notin> set (processed_ids chan0)" by (simp add: chan0_def init_def)
  have p1: "parse_command (max_str_digits env_ok) (raw_content msg_empty) [(''message_id'', MStr (msg_id msg_empty))]
     = Inr ([], [(''message_id'', MStr ''m-empty'')])"
    by code_simp
  have f1: "fetched_media env_ok (length (requests chan0)) (event_attachments msg_empty) = []"
    by code_simp
  have r1: "raw_content msg_empty = []" by code_simp
  have n2: "msg_id msg_two_images \<notin> set (processed_ids chan0)" by (simp add: chan0_def init_def)
  have p2: "parse_command (max_str_digits env_ok) (raw_content msg_two_images)
     [(''message_id'', MStr (msg_id msg_two_images))] = Inr ([], [(''message_id'', MStr ''m-img'')])"
    by code_simp
  have f2: "fetched_media env_ok (length (requests chan0)) (event_attachments msg_two_images) = [''/tmp/tmpxx.png'']"
    by code_simp
  have r2: "publish_raises env_ok (canonical msg_two_images [] [(''message_id'', MStr ''m-img'')] [''/tmp/tmpxx.png'']) = None"
    by (simp add: env_ok_def)
  note t1 = empty_message_suppression[where ev = env_ok and s = chan0 and data = msg_empty
              and ctext = "[]" and meta = "[(''message_id'', MStr ''m-empty'')]",
              THEN conjunct1, rule_format]
  note t1' = empty_message_suppression[where ev = env_ok and s = chan0 and data = msg_empty,
              THEN conjunct2, THEN conjunct1, rule_format]
  note t2 = empty_message_suppression[where ev = env_ok and s = chan0 and data = msg_two_images
              and ctext = "[]" and meta = "[(''message_id'', MStr ''m-img'')]"
              and media = "[''/tmp/tmpxx.png'']"]
  have b1: "bus (snd (on_message env_ok msg_empty chan0)) = bus chan0"
    using t1 t1' n1 p1 f1 r1 by blast
  have b2: "bus (snd (on_message env_ok msg_two_images chan0)) =
     bus chan0 @ [canonical msg_two_images [] [(''message_id'', MStr ''m-img'')] [''/tmp/tmpxx.png'']]"
    using t2[THEN conjunct1, rule_format] n2 p2 r2 f2 by simp
  have c2: "in_content (canonical msg_two_images [] [(''message_id'', MStr ''m-img'')] [''/tmp/tmpxx.png''])
     = ''[Image Message]''"
    using t2[THEN conjunct2, THEN conjunct2, THEN conjunct1] by simp
  show ?thesis using n1 p1 f1 r1 b1 n2 p2 f2 r2 b2 c2 by blast
qed

subsection \<open>C9: the sender id\<close>

text \<open>
  C9, amended. A truthy \<open>id\<close> of the author is the sender id. Without one, the sender
  id is \<open>unknown\<close> when the author has no \<open>user_openid\<close> attribute, and it is the open
  id when that is a non-empty string: then the sender id is non-empty, and it is
  \<open>unknown\<close> only if the open id is itself this word. Every message the handler
  publishes carries the sender id so resolved, as sender and as chat.
\<close>

theorem sender_id_fallback:
  "(truthy (getattr (author_id a) PyNone) \<longrightarrow>
      resolve_user_id a = py_str (getattr (author_id a) PyNone)) \<and>
   (\<not> truthy (getattr (author_id a) PyNone) \<and> author_user_openid a = None \<longrightarrow>
      resolve_user_id a = ''unknown'') \<and>
   (\<not> truthy (getattr (author_id a) PyNone) \<and> author_user_openid a = Some (PyStr v) \<and> v \<noteq> [] \<longrightarrow>
      resolve_user_id a = v \<and> resolve_user_id a \<noteq> [] \<and>
      (resolve_user_id a = ''unknown'') = (v = ''unknown'')) \<and>
   (bus (snd (on_message ev data s)) = bus s @ [m] \<longrightarrow>
      in_sender_id m = resolve_user_id (msg_author data) \<and>
      in_chat_id m = resolve_user_id (msg_author data))"
proof (intro conjI impI)
  assume "truthy (getattr (author_id a) PyNone)"
  then show "resolve_user_id a = py_str (getattr (author_id a) PyNone)"
    by (simp add: resolve_user_id_def py_or_def)
next
  assume "\<not> truthy (getattr (author_id a) PyNone) \<and> author_user_openid a = None"
  then show "resolve_user_id a = ''unknown''"
    by (simp add: resolve_user_id_def py_or_def)
next
  assume h: "\<not> truthy (getattr (author_id a) PyNone) \<and> author_user_openid a = Some (PyStr v) \<and> v \<noteq> []"
  then show r: "resolve_user_id a = v" by (simp add: resolve_user_id_def py_or_def)
  show "resolve_user_id a \<noteq> []" using h r by simp
  show "(resolve_user_id a = ''unknown'') = (v = ''unknown'')" using r by simp
next
  assume "bus (snd (on_message ev data s)) = bus s @ [m]"
  then obtain ctext meta media where m: "m = canonical data ctext meta media"
    using on_message_published by blast
  show "in_sender_id m = resolve_user_id (msg_author data)" by (simp add: m canonical_def)
  show "in_chat_id m = resolve_user_id (msg_author data)" by (simp add: m canonical_def)
qed

text \<open>
  C9 as stated fails for an author whose only identity is the non-empty open id
  \<open>unknown\<close>: the sender id is that open id, and so it is \<open>unknown\<close>.
\<close>

theorem openid_unknown_counterexample:
  "author_id unknown_openid_author = None \<and>
   author_user_openid unknown_openid_author = Some (PyStr ''unknown'') \<and>
   ''unknown'' \<noteq> [] \<and>
   resolve_user_id unknown_openid_author = ''unknown''"
  by code_simp

text \<open>An author with an id, one with nothing, and one with an open id only.\<close>

theorem sender_id_fallback_witness:
  "truthy (getattr (author_id \<lparr>author_id = Some (PyStr ''7001''), author_user_openid = None\<rparr>) PyNone) \<and>
   resolve_user_id \<lparr>author_id = Some (PyStr ''7001''), author_user_openid = None\<rparr> = ''7001'' \<and>
   \<not> truthy (getattr (author_id \<lparr>author_id = None, author_user_openid = None\<rparr>) PyNone) \<and>
   resolve_user_id \<lparr>author_id = None, author_user_openid = None\<rparr> = ''unknown'' \<and>
   \<not> truthy (getattr (author_id openid_author) PyNone) \<and>
   author_user_openid openid_author = Some (PyStr ''E4F1A9'') \<and> ''E4F1A9'' \<noteq> [] \<and>
   resolve_user_id openid_author = ''E4F1A9'' \<and> resolve_user_id openid_author \<noteq> ''unknown'' \<and>
   bus (snd (on_message env_ok (msg_text ''m1'' ''hello'') chan0)) =
     bus chan0 @ [canonical (msg_text ''m1'' ''hello'') ''hello'' md0 []] \<and>
   in_sender_id (canonical (msg_text ''m1'' ''hello'') ''hello'' md0 []) = ''E4F1A9''"
proof -
  have h1: "truthy (getattr (author_id \<lparr>author_id = Some (PyStr ''7001''), author_user_openid = None\<rparr>) PyNone)"
    by simp
  have h2: "\<not> truthy (getattr (author_id \<lparr>author_id = None, author_user_openid = None\<rparr>) PyNone) \<and>
            author_user_openid \<lparr>author_id = None, author_user_openid = None\<rparr> = None"
    by simp
  have h3: "\<not> truthy (getattr (author_id openid_author) PyNone) \<and>
   author_user_openid openid_author = Some (PyStr ''E4F1A9'') \<and> ''E4F1A9'' \<noteq> []"
    by (simp add: openid_author_def)
  have h4: "bus (snd (on_message env_ok (msg_text ''m1'' ''hello'') chan0)) =
     bus chan0 @ [canonical (msg_text ''m1'' ''hello'') ''hello'' md0 []]"
    by code_simp
  note t1 = sender_id_fallback[where a = "\<lparr>author_id = Some (PyStr ''7001''), author_user_openid = None\<rparr>",
              THEN conjunct1, rule_format, OF h1]
  note t2 = sender_id_fallback[where a = "\<lparr>author_id = None, author_user_openid = None\<rparr>",
              THEN conjunct2, THEN conjunct1, rule_format, OF h2]
  note t3 = sender_id_fallback[where a = openid_author and v = "''E4F1A9''",
              THEN conjunct2, THEN conjunct2, THEN conjunct1, rule_format, OF h3]
  note t4 = sender_id_fallback[where ev = env_ok and data = "msg_text ''m1'' ''hello''" and s = chan0
              and m = "canonical (msg_text ''m1'' ''hello'') ''hello'' md0 []",
              THEN conjunct2, THEN conjunct2, THEN conjunct2, rule_format, OF h4]
  have a1: "resolve_user_id \<lparr>author_id = Some (PyStr ''7001''), author_user_openid = None\<rparr> = ''7001''"
    using t1 by simp
  have a3: "resolve_user_id openid_author = ''E4F1A9'' \<and> resolve_user_id openid_author \<noteq> ''unknown''"
    using t3 by simp
  have a4: "in_sender_id (canonical (msg_text ''m1'' ''hello'') ''hello'' md0 []) = ''E4F1A9''"
    using t4 a3 by (simp add: msg_text_def)
  show ?thesis using h1 h2 h3 h4 a1 t2 a3 a4 by blast
qed

end
